theory Spec2Isabelle
  imports Main
begin

section \<open>Go standard library functions used by the program\<close>

text \<open>
  Go strings and byte slices are modelled as \<open>string\<close> (a list of 8-bit characters, one
  per byte). The functions of this section are the ones the program calls from the
  packages \<open>strings\<close>, \<open>bytes\<close>, \<open>path/filepath\<close> (Unix build, separator \<open>/\<close>) and
  \<open>bufio\<close>.
\<close>

definition strings_HasPrefix :: "string \<Rightarrow> string \<Rightarrow> bool" where
  "strings_HasPrefix s pre = (length s \<ge> length pre \<and> take (length pre) s = pre)"

definition strings_HasSuffix :: "string \<Rightarrow> string \<Rightarrow> bool" where
  "strings_HasSuffix s suf =
     (length s \<ge> length suf \<and> drop (length s - length suf) s = suf)"

definition strings_TrimPrefix :: "string \<Rightarrow> string \<Rightarrow> string" where
  "strings_TrimPrefix s pre = (if strings_HasPrefix s pre then drop (length pre) s else s)"

definition strings_TrimSuffix :: "string \<Rightarrow> string \<Rightarrow> string" where
  "strings_TrimSuffix s suf =
     (if strings_HasSuffix s suf then take (length s - length suf) s else s)"

fun strings_Contains :: "string \<Rightarrow> string \<Rightarrow> bool" where
  "strings_Contains [] sub = (sub = [])"
| "strings_Contains (c # cs) sub =
     (strings_HasPrefix (c # cs) sub \<or> strings_Contains cs sub)"

text \<open>\<open>strings.ReplaceAll\<close> for a one-byte pattern and a one-byte replacement.\<close>

definition strings_ReplaceAll :: "string \<Rightarrow> char \<Rightarrow> char \<Rightarrow> string" where
  "strings_ReplaceAll s old new = map (\<lambda>c. if c = old then new else c) s"

text \<open>
  \<open>unicode.IsSpace\<close> on the UTF-8 encodings: the six ASCII white-space bytes, U+0085 and
  U+00A0 (two bytes), and U+1680, U+2000 to U+200A, U+2028, U+2029, U+202F, U+205F and
  U+3000 (three bytes). An invalid encoding decodes to the replacement rune, which is not
  white space.
\<close>

definition isSpace1 :: "char \<Rightarrow> bool" where
  "isSpace1 c = (c = CHR 0x09 \<or> c = CHR 0x0A \<or> c = CHR 0x0B \<or> c = CHR 0x0C
                 \<or> c = CHR 0x0D \<or> c = CHR 0x20)"

definition isSpace2 :: "char \<Rightarrow> char \<Rightarrow> bool" where
  "isSpace2 c1 c2 = (c1 = CHR 0xC2 \<and> (c2 = CHR 0x85 \<or> c2 = CHR 0xA0))"

definition isSpace3 :: "char \<Rightarrow> char \<Rightarrow> char \<Rightarrow> bool" where
  "isSpace3 c1 c2 c3 =
     ((c1 = CHR 0xE1 \<and> c2 = CHR 0x9A \<and> c3 = CHR 0x80)
      \<or> (c1 = CHR 0xE2 \<and> c2 = CHR 0x80
          \<and> ((0x80 \<le> (of_char c3 :: nat) \<and> (of_char c3 :: nat) \<le> 0x8A)
              \<or> c3 = CHR 0xA8 \<or> c3 = CHR 0xA9 \<or> c3 = CHR 0xAF))
      \<or> (c1 = CHR 0xE2 \<and> c2 = CHR 0x81 \<and> c3 = CHR 0x9F)
      \<or> (c1 = CHR 0xE3 \<and> c2 = CHR 0x80 \<and> c3 = CHR 0x80))"

fun trimLeftSpace :: "string \<Rightarrow> string" where
  "trimLeftSpace (c1 # c2 # c3 # cs) =
     (if isSpace1 c1 then trimLeftSpace (c2 # c3 # cs)
      else if isSpace2 c1 c2 then trimLeftSpace (c3 # cs)
      else if isSpace3 c1 c2 c3 then trimLeftSpace cs
      else c1 # c2 # c3 # cs)"
| "trimLeftSpace [c1, c2] =
     (if isSpace1 c1 then trimLeftSpace [c2]
      else if isSpace2 c1 c2 then []
      else [c1, c2])"
| "trimLeftSpace [c1] = (if isSpace1 c1 then [] else [c1])"
| "trimLeftSpace [] = []"

text \<open>The same from the right end, on the reversed string (last byte first).\<close>

fun trimRevSpace :: "string \<Rightarrow> string" where
  "trimRevSpace (c1 # c2 # c3 # cs) =
     (if isSpace1 c1 then trimRevSpace (c2 # c3 # cs)
      else if isSpace2 c2 c1 then trimRevSpace (c3 # cs)
      else if isSpace3 c3 c2 c1 then trimRevSpace cs
      else c1 # c2 # c3 # cs)"
| "trimRevSpace [c1, c2] =
     (if isSpace1 c1 then trimRevSpace [c2]
      else if isSpace2 c2 c1 then []
      else [c1, c2])"
| "trimRevSpace [c1] = (if isSpace1 c1 then [] else [c1])"
| "trimRevSpace [] = []"

definition strings_TrimSpace :: "string \<Rightarrow> string" where
  "strings_TrimSpace s = rev (trimRevSpace (rev (trimLeftSpace s)))"

text \<open>
  \<open>strings.ToLower\<close>: ASCII upper-case letters are lowered. On a string with a byte
  outside ASCII Go lowers every rune; the only runes outside ASCII whose lower case is an
  ASCII letter are U+0130 (to \<open>i\<close>) and U+212A (to \<open>k\<close>), and a lead byte always starts a
  rune of its own. Every other byte outside ASCII is kept, where Go writes some rune
  outside ASCII: the model agrees with Go whenever Go's result is ASCII, which is all the
  program's comparisons against its ASCII extension tables need.
\<close>

definition toLowerASCII :: "char \<Rightarrow> char" where
  "toLowerASCII c =
     (if (of_char (CHR ''A'') :: nat) \<le> of_char c \<and> (of_char c :: nat) \<le> of_char (CHR ''Z'')
      then char_of ((of_char c :: nat) + 32) else c)"

fun strings_ToLower :: "string \<Rightarrow> string" where
  "strings_ToLower (c1 # c2 # c3 # cs) =
     (if c1 = CHR 0xE2 \<and> c2 = CHR 0x84 \<and> c3 = CHR 0xAA then CHR ''k'' # strings_ToLower cs
      else if c1 = CHR 0xC4 \<and> c2 = CHR 0xB0 then CHR ''i'' # strings_ToLower (c3 # cs)
      else toLowerASCII c1 # strings_ToLower (c2 # c3 # cs))"
| "strings_ToLower [c1, c2] =
     (if c1 = CHR 0xC4 \<and> c2 = CHR 0xB0 then [CHR ''i'']
      else toLowerASCII c1 # strings_ToLower [c2])"
| "strings_ToLower [c1] = [toLowerASCII c1]"
| "strings_ToLower [] = []"

definition IsPathSeparator :: "char \<Rightarrow> bool" where
  "IsPathSeparator c = (c = CHR ''/'')"

text \<open>
  \<open>filepath.Ext\<close> walks back from the end of the path to the last separator and returns
  the suffix from the first dot it meets; the first argument is the path reversed, the
  second the bytes already passed.
\<close>

fun filepath_Ext_loop :: "string \<Rightarrow> string \<Rightarrow> string" where
  "filepath_Ext_loop [] suf = []"
| "filepath_Ext_loop (c # r) suf =
     (if IsPathSeparator c then []
      else if c = CHR ''.'' then c # suf
      else filepath_Ext_loop r (c # suf))"

definition filepath_Ext :: "string \<Rightarrow> string" where
  "filepath_Ext path = filepath_Ext_loop (rev path) []"

text \<open>\<open>filepath.Base\<close>: trailing separators stripped, then the last element.\<close>

definition filepath_Base :: "string \<Rightarrow> string" where
  "filepath_Base path =
     (if path = [] then ''.''
      else
        let p1 = rev (dropWhile IsPathSeparator (rev path));
            p2 = rev (takeWhile (\<lambda>c. \<not> IsPathSeparator c) (rev p1))
        in if p2 = [] then ''/'' else p2)"

text \<open>
  \<open>filepath.Clean\<close> by path elements: empty elements and \<open>.\<close> are dropped, \<open>..\<close> removes
  the element before it, is dropped at the root, and is kept at the start of a path that
  is not rooted; the empty result is \<open>.\<close>. The second argument of the loop is the output
  so far, last element first.
\<close>

fun splitSep :: "string \<Rightarrow> string \<Rightarrow> string list" where
  "splitSep cur [] = [cur]"
| "splitSep cur (c # cs) =
     (if IsPathSeparator c then cur # splitSep [] cs else splitSep (cur @ [c]) cs)"

fun joinSep :: "string list \<Rightarrow> string" where
  "joinSep [] = []"
| "joinSep [e] = e"
| "joinSep (e # es) = e @ ''/'' @ joinSep es"

fun filepath_Clean_loop :: "bool \<Rightarrow> string list \<Rightarrow> string list \<Rightarrow> string list" where
  "filepath_Clean_loop rooted out [] = rev out"
| "filepath_Clean_loop rooted out (e # es) =
     (if e = [] \<or> e = ''.'' then filepath_Clean_loop rooted out es
      else if e = ''..'' then
        (case out of
           [] \<Rightarrow> if rooted then filepath_Clean_loop rooted [] es
                 else filepath_Clean_loop rooted [''..''] es
         | x # xs \<Rightarrow> if x = ''..'' then filepath_Clean_loop rooted (''..'' # out) es
                     else filepath_Clean_loop rooted xs es)
      else filepath_Clean_loop rooted (e # out) es)"

definition filepath_Clean :: "string \<Rightarrow> string" where
  "filepath_Clean path =
     (if path = [] then ''.''
      else
        let rooted = IsPathSeparator (hd path);
            out = (if rooted then ''/'' else []) @
                  joinSep (filepath_Clean_loop rooted [] (splitSep [] path))
        in if out = [] then ''.'' else out)"

text \<open>\<open>filepath.Dir\<close>: the path up to its last separator, cleaned.\<close>

definition filepath_Dir :: "string \<Rightarrow> string" where
  "filepath_Dir path =
     filepath_Clean (rev (dropWhile (\<lambda>c. \<not> IsPathSeparator c) (rev path)))"

text \<open>
  \<open>bufio.Scanner\<close> with the default split function \<open>ScanLines\<close> and the default buffer:
  the tokens that successive calls of \<open>Scan\<close> deliver until it returns false. A line ends
  at a newline or at the end of the input, one trailing carriage return is dropped, and an
  empty rest at the end of the input is no line. A line of \<open>MaxScanTokenSize\<close> bytes or
  more (the newline not counted) does not fit the buffer: \<open>Scan\<close> returns false there and
  the lines after it are never delivered. The first argument is the line read so far.
\<close>

definition MaxScanTokenSize :: nat where
  "MaxScanTokenSize = 64 * 1024"

definition dropCR :: "string \<Rightarrow> string" where
  "dropCR l = (if l \<noteq> [] \<and> last l = CHR 0x0D then butlast l else l)"

fun scanLines :: "string \<Rightarrow> string \<Rightarrow> string list" where
  "scanLines cur [] =
     (if cur = [] \<or> length cur \<ge> MaxScanTokenSize then [] else [dropCR cur])"
| "scanLines cur (c # cs) =
     (if c = CHR 0x0A
      then (if length cur \<ge> MaxScanTokenSize then [] else dropCR cur # scanLines [] cs)
      else scanLines (cur @ [c]) cs)"

definition Scanner_lines :: "string \<Rightarrow> string list" where
  "Scanner_lines data = scanLines [] data"

section \<open>subtitle.go\<close>

fun isDigitsOnly_loop :: "string \<Rightarrow> bool" where
  "isDigitsOnly_loop [] = True"
| "isDigitsOnly_loop (r # rs) =
     (if (of_char r :: nat) < of_char (CHR ''0'') \<or> (of_char r :: nat) > of_char (CHR ''9'')
      then False else isDigitsOnly_loop rs)"

definition isDigitsOnly :: "string \<Rightarrow> bool" where
  "isDigitsOnly s = (if s = [] then False else isDigitsOnly_loop s)"

text \<open>
  The scanning loop of \<open>ConvertSRTtoVTT\<close>: \<open>buf\<close> is the output buffer, \<open>afterBlank\<close> the
  loop's flag, the list the lines still to come.
\<close>

fun ConvertSRTtoVTT_loop :: "string \<Rightarrow> bool \<Rightarrow> string list \<Rightarrow> string" where
  "ConvertSRTtoVTT_loop buf afterBlank [] = buf"
| "ConvertSRTtoVTT_loop buf afterBlank (line # rest) =
     (let trimmed = strings_TrimSpace line in
      if afterBlank \<and> isDigitsOnly trimmed
      then ConvertSRTtoVTT_loop buf False rest
      else
        let line' = (if strings_Contains line ''-->''
                     then strings_ReplaceAll line (CHR '','') (CHR ''.'') else line)
        in ConvertSRTtoVTT_loop (buf @ line' @ [CHR 0x0A]) (trimmed = []) rest)"

definition BOM :: string where
  "BOM = [CHR 0xEF, CHR 0xBB, CHR 0xBF]"

definition ConvertSRTtoVTT :: "string \<Rightarrow> string" where
  "ConvertSRTtoVTT srt =
     (let srt' = strings_TrimPrefix srt BOM
      in ConvertSRTtoVTT_loop ''WEBVTT\<newline>\<newline>'' True (Scanner_lines srt'))"

section \<open>torrent.go\<close>

text \<open>
  The engine (package \<open>torrent\<close>) is outside the program. A file of the engine carries
  its display path, its length and the piece priority last set on it; a torrent handle
  carries its info hash in hexadecimal, its name and its files. Instants of time are
  integers.
\<close>

type_synonym time = int

datatype PiecePriority = PiecePriorityNone | PiecePriorityNormal | PiecePriorityNow

record torrent_File =
  DisplayPath :: string
  FileLength :: int
  Priority :: PiecePriority

record torrent_Torrent =
  InfoHash :: string
  TorrentName :: string
  TorrentFiles :: "torrent_File list"

definition SetPriority :: "torrent_File \<Rightarrow> PiecePriority \<Rightarrow> torrent_File" where
  "SetPriority f p = f\<lparr>Priority := p\<rparr>"

definition videoExtensions :: "string \<Rightarrow> bool" where
  "videoExtensions ext =
     (ext \<in> set [''.mkv'', ''.mp4'', ''.avi'', ''.webm'', ''.mov'', ''.m4v''])"

definition subtitleExtensions :: "string \<Rightarrow> bool" where
  "subtitleExtensions ext = (ext \<in> set [''.srt'', ''.vtt'', ''.ass'', ''.sub''])"

record FileInfo =
  Index :: int
  Path :: string
  Length :: int
  IsVideo :: bool
  IsSubtitle :: bool

record SubtitleInfo =
  SubName :: string
  SubIndex :: int
  Content :: string

record ManagedTorrent =
  Torrent :: torrent_Torrent
  ID :: string
  Name :: string
  Files :: "FileInfo list"
  SelectedFile :: int
  Subtitles :: "SubtitleInfo list"
  LastAccessed :: time

text \<open>
  The manager's map of sessions, and the handles on which the manager has called \<open>Drop\<close>
  (the part of the engine client's state the manager changes besides priorities).
\<close>

record TorrentManager =
  torrents :: "string \<rightharpoonup> ManagedTorrent"
  dropped :: "torrent_Torrent set"

datatype error =
    AddMagnetFailed
  | MetadataTimeout
  | TorrentNotFound
  | FileIndexOutOfRange
  | NoFileSelected
  | ReadDataDirFailed
  | PanicIndexOutOfRange

definition NewTorrentManager :: TorrentManager where
  "NewTorrentManager = \<lparr>torrents = Map.empty, dropped = {}\<rparr>"

definition stripExt :: "string \<Rightarrow> string" where
  "stripExt name = strings_TrimSuffix name (filepath_Ext name)"

definition classifyFiles :: "torrent_Torrent \<Rightarrow> FileInfo list" where
  "classifyFiles t =
     map (\<lambda>(i, f).
            let ext = strings_ToLower (filepath_Ext (DisplayPath f))
            in \<lparr>Index = int i, Path = DisplayPath f, Length = FileLength f,
                IsVideo = videoExtensions ext, IsSubtitle = subtitleExtensions ext\<rparr>)
         (enumerate 0 (TorrentFiles t))"

text \<open>
  \<open>AddMagnet\<close> after the engine has returned the handle \<open>t\<close>, in its two critical
  sections. \<open>AddMagnet_lookup\<close> is the first, under the read lock: a session already
  stored under the handle's identifier is touched and returned. \<open>AddMagnet_insert\<close> is the
  rest: the wait for the metadata (\<open>gotInfo\<close> tells whether it arrived before the
  timeout), the classification, and the check and insertion under the write lock.
\<close>

definition AddMagnet_lookup ::
    "TorrentManager \<Rightarrow> torrent_Torrent \<Rightarrow> time \<Rightarrow> TorrentManager \<times> ManagedTorrent option" where
  "AddMagnet_lookup m t now =
     (let tid = InfoHash t in
      case torrents m tid of
        Some mt \<Rightarrow>
          let mt' = mt\<lparr>LastAccessed := now\<rparr>
          in (m\<lparr>torrents := (torrents m)(tid \<mapsto> mt')\<rparr>, Some mt')
      | None \<Rightarrow> (m, None))"

definition AddMagnet_insert ::
    "TorrentManager \<Rightarrow> torrent_Torrent \<Rightarrow> bool \<Rightarrow> time
       \<Rightarrow> TorrentManager \<times> (error + ManagedTorrent)" where
  "AddMagnet_insert m t gotInfo now =
     (let tid = InfoHash t in
      if \<not> gotInfo then (m\<lparr>dropped := insert t (dropped m)\<rparr>, Inl MetadataTimeout)
      else
        let files = classifyFiles t;
            mt = \<lparr>Torrent = t, ID = tid, Name = TorrentName t, Files = files,
                  SelectedFile = - 1, Subtitles = [], LastAccessed = now\<rparr>
        in case torrents m tid of
             Some existing \<Rightarrow> (m\<lparr>dropped := insert t (dropped m)\<rparr>, Inr existing)
           | None \<Rightarrow> (m\<lparr>torrents := (torrents m)(tid \<mapsto> mt)\<rparr>, Inr mt))"

text \<open>
  The whole call: \<open>client_AddMagnet\<close> is the engine's answer to the descriptor (\<open>None\<close>
  for an error).
\<close>

definition AddMagnet ::
    "(string \<Rightarrow> torrent_Torrent option) \<Rightarrow> TorrentManager \<Rightarrow> string \<Rightarrow> bool \<Rightarrow> time
       \<Rightarrow> TorrentManager \<times> (error + ManagedTorrent)" where
  "AddMagnet client_AddMagnet m uri gotInfo now =
     (case client_AddMagnet uri of
        None \<Rightarrow> (m, Inl AddMagnetFailed)
      | Some t \<Rightarrow>
          (case AddMagnet_lookup m t now of
             (m1, Some mt) \<Rightarrow> (m1, Inr mt)
           | (m1, None) \<Rightarrow> AddMagnet_insert m1 t gotInfo now))"

definition GetTorrent ::
    "TorrentManager \<Rightarrow> string \<Rightarrow> time \<Rightarrow> TorrentManager \<times> ManagedTorrent option" where
  "GetTorrent m tid now =
     (case torrents m tid of
        Some mt \<Rightarrow>
          let mt' = mt\<lparr>LastAccessed := now\<rparr>
          in (m\<lparr>torrents := (torrents m)(tid \<mapsto> mt')\<rparr>, Some mt')
      | None \<Rightarrow> (m, None))"

text \<open>
  The subtitle scan of \<open>SelectFile\<close> (the loop over \<open>mt.Files\<close>). \<open>rd i\<close> is what
  \<open>readTorrentFile\<close> returns for the engine's file \<open>i\<close> during this call, \<open>None\<close> for an
  error. The loop indexes the engine's file list with the position in \<open>mt.Files\<close>; out of
  range Go panics, and the result is \<open>None\<close> with the priorities set so far.
\<close>

fun SelectFile_scan ::
    "(nat \<Rightarrow> string option) \<Rightarrow> string \<Rightarrow> string \<Rightarrow> (nat \<times> FileInfo) list \<Rightarrow> torrent_File list
       \<Rightarrow> SubtitleInfo list \<Rightarrow> SubtitleInfo list
       \<Rightarrow> torrent_File list \<times> (SubtitleInfo list \<times> SubtitleInfo list) option" where
  "SelectFile_scan rd videoBase videoDir [] torrentFiles matched other =
     (torrentFiles, Some (matched, other))"
| "SelectFile_scan rd videoBase videoDir ((i, fi) # rest) torrentFiles matched other =
     (if \<not> IsSubtitle fi
      then SelectFile_scan rd videoBase videoDir rest torrentFiles matched other
      else if i \<ge> length torrentFiles then (torrentFiles, None)
      else
        let torrentFiles' =
              torrentFiles[i := SetPriority (torrentFiles ! i) PiecePriorityNow]
        in case rd i of
             None \<Rightarrow> SelectFile_scan rd videoBase videoDir rest torrentFiles' matched other
           | Some raw \<Rightarrow>
               let ext = strings_ToLower (filepath_Ext (Path fi));
                   content = (if ext = ''.srt'' then ConvertSRTtoVTT raw else raw);
                   sub = \<lparr>SubName = filepath_Base (Path fi), SubIndex = int i,
                          Content = content\<rparr>;
                   subBase = stripExt (filepath_Base (Path fi));
                   subDir = filepath_Dir (Path fi)
               in if strings_HasPrefix subBase videoBase \<or> subDir = videoDir
                  then SelectFile_scan rd videoBase videoDir rest torrentFiles'
                         (matched @ [sub]) other
                  else SelectFile_scan rd videoBase videoDir rest torrentFiles'
                         matched (other @ [sub]))"

definition SelectFile ::
    "TorrentManager \<Rightarrow> string \<Rightarrow> int \<Rightarrow> (nat \<Rightarrow> string option) \<Rightarrow> time
       \<Rightarrow> TorrentManager \<times> (error + ManagedTorrent)" where
  "SelectFile m tid fileIndex rd now =
     (case GetTorrent m tid now of
        (m1, None) \<Rightarrow> (m1, Inl TorrentNotFound)
      | (m1, Some mt) \<Rightarrow>
          if fileIndex < 0 \<or> fileIndex \<ge> int (length (Files mt))
          then (m1, Inl FileIndexOutOfRange)
          else
            let t = Torrent mt;
                torrentFiles = map (\<lambda>f. SetPriority f PiecePriorityNone) (TorrentFiles t)
            in if nat fileIndex \<ge> length torrentFiles
               then (m1\<lparr>torrents := (torrents m1)
                            (tid \<mapsto> mt\<lparr>Torrent := t\<lparr>TorrentFiles := torrentFiles\<rparr>\<rparr>)\<rparr>,
                     Inl PanicIndexOutOfRange)
               else
                 let torrentFiles1 =
                       torrentFiles[nat fileIndex :=
                         SetPriority (torrentFiles ! nat fileIndex) PiecePriorityNormal];
                     videoBase = stripExt (filepath_Base (Path (Files mt ! nat fileIndex)));
                     videoDir = filepath_Dir (Path (Files mt ! nat fileIndex))
                 in (case SelectFile_scan rd videoBase videoDir (enumerate 0 (Files mt))
                           torrentFiles1 [] [] of
                      (torrentFiles2, None) \<Rightarrow>
                        (m1\<lparr>torrents := (torrents m1)
                              (tid \<mapsto> mt\<lparr>Torrent := t\<lparr>TorrentFiles := torrentFiles2\<rparr>,
                                        SelectedFile := fileIndex, Subtitles := []\<rparr>)\<rparr>,
                         Inl PanicIndexOutOfRange)
                    | (torrentFiles2, Some (matched, other)) \<Rightarrow>
                        let mt' = mt\<lparr>Torrent := t\<lparr>TorrentFiles := torrentFiles2\<rparr>,
                                     SelectedFile := fileIndex,
                                     Subtitles := matched @ other\<rparr>
                        in (m1\<lparr>torrents := (torrents m1)(tid \<mapsto> mt')\<rparr>, Inr mt')))"

text \<open>
  The reader the engine hands out, as far as the manager configures it.
\<close>

record torrent_Reader =
  Readahead :: int
  Responsive :: bool

definition GetFileReader ::
    "TorrentManager \<Rightarrow> string \<Rightarrow> time
       \<Rightarrow> TorrentManager \<times> (error + torrent_Reader \<times> torrent_File)" where
  "GetFileReader m tid now =
     (case GetTorrent m tid now of
        (m1, None) \<Rightarrow> (m1, Inl TorrentNotFound)
      | (m1, Some mt) \<Rightarrow>
          let selectedIdx = SelectedFile mt in
          if selectedIdx < 0 then (m1, Inl NoFileSelected)
          else if nat selectedIdx \<ge> length (TorrentFiles (Torrent mt))
          then (m1, Inl PanicIndexOutOfRange)
          else
            let file = TorrentFiles (Torrent mt) ! nat selectedIdx;
                readahead =
                  (if FileLength file > 2 * 1024 * 1024 * 1024 then 64 * 1024 * 1024
                   else if FileLength file > 500 * 1024 * 1024 then 32 * 1024 * 1024
                   else 16 * 1024 * 1024)
            in (m1, Inr (\<lparr>Readahead = readahead, Responsive = True\<rparr>, file)))"

definition RemoveTorrent :: "TorrentManager \<Rightarrow> string \<Rightarrow> TorrentManager" where
  "RemoveTorrent m tid =
     (case torrents m tid of
        Some mt \<Rightarrow> m\<lparr>torrents := (torrents m)(tid := None),
                     dropped := insert (Torrent mt) (dropped m)\<rparr>
      | None \<Rightarrow> m)"

text \<open>
  \<open>RemoveAll\<close>: every session dropped and deleted; \<open>readDir\<close> is the outcome of reading
  the data directory (\<open>None\<close> for an error other than the directory not existing), whose
  entries are then removed from the disk, which is not part of the state.
\<close>

definition RemoveAll :: "TorrentManager \<Rightarrow> bool \<Rightarrow> TorrentManager \<times> error option" where
  "RemoveAll m readDirOk =
     (m\<lparr>torrents := Map.empty, dropped := dropped m \<union> Torrent ` ran (torrents m)\<rparr>,
      if readDirOk then None else Some ReadDataDirFailed)"

text \<open>
  \<open>cleanup\<close>: the sessions last accessed more than \<open>maxAge\<close> before \<open>now\<close> are removed,
  each as \<open>RemoveTorrent\<close> does.
\<close>

definition cleanup :: "TorrentManager \<Rightarrow> int \<Rightarrow> time \<Rightarrow> TorrentManager" where
  "cleanup m maxAge now =
     m\<lparr>torrents := (\<lambda>tid. case torrents m tid of
                            None \<Rightarrow> None
                          | Some mt \<Rightarrow> if now - LastAccessed mt > maxAge then None
                                       else Some mt),
       dropped := dropped m \<union>
                  Torrent ` {mt \<in> ran (torrents m). now - LastAccessed mt > maxAge}\<rparr>"

section \<open>handlers.go: attaching subtitles\<close>

text \<open>
  The two handlers that append to a session's subtitle list. A response is the error
  message with its status code, or the name and the index the handler answers with (the
  URL is \<open>/subs/\<close>, the identifier, \<open>/\<close> and the index). The multipart form of an upload
  is given by how its parsing ends.
\<close>

datatype response = jsonError string nat | jsonOK string int

datatype upload_form =
    FormTooLarge
  | FormNoSubtitleFile
  | FormReadFailed
  | FormFile string string

definition maxUploadSize :: nat where
  "maxUploadSize = 10 * 2 ^ 20"

definition handleUploadSubtitle ::
    "TorrentManager \<Rightarrow> string \<Rightarrow> upload_form \<Rightarrow> time \<Rightarrow> TorrentManager \<times> response" where
  "handleUploadSubtitle manager torrentID form now =
     (if torrentID = [] then (manager, jsonError ''torrent ID required'' 400)
      else case GetTorrent manager torrentID now of
        (m1, None) \<Rightarrow> (m1, jsonError ''torrent not found'' 404)
      | (m1, Some mt) \<Rightarrow>
          (case form of
             FormTooLarge \<Rightarrow> (m1, jsonError ''file too large (max 10MB)'' 413)
           | FormNoSubtitleFile \<Rightarrow> (m1, jsonError ''subtitle file required'' 400)
           | FormReadFailed \<Rightarrow> (m1, jsonError ''failed to read file'' 500)
           | FormFile filename bytes \<Rightarrow>
               let content0 = take maxUploadSize bytes;
                   ext = strings_ToLower (filepath_Ext filename);
                   content = (if ext = ''.srt'' then ConvertSRTtoVTT content0 else content0);
                   name = (if ext = ''.srt''
                           then strings_TrimSuffix filename (filepath_Ext filename) @ ''.vtt''
                           else filename);
                   uploadIndex = - (int (length (Subtitles mt)) + 1);
                   mt' = mt\<lparr>Subtitles := Subtitles mt @
                            [\<lparr>SubName = name, SubIndex = uploadIndex, Content = content\<rparr>]\<rparr>
               in (m1\<lparr>torrents := (torrents m1)(torrentID \<mapsto> mt')\<rparr>,
                   jsonOK name uploadIndex)))"

text \<open>
  \<open>body\<close> is the decoded request (\<open>None\<close> when the body is not valid JSON, else the
  \<open>fileId\<close>), \<open>subClient_Download\<close> the answer of the subtitle service: an error message,
  or the content and the file name.
\<close>

definition handleDownloadSubtitle ::
    "TorrentManager \<Rightarrow> (int \<Rightarrow> string + string \<times> string) \<Rightarrow> string \<Rightarrow> int option \<Rightarrow> time
       \<Rightarrow> TorrentManager \<times> response" where
  "handleDownloadSubtitle manager subClient_Download torrentID body now =
     (if torrentID = [] then (manager, jsonError ''torrent ID required'' 400)
      else case GetTorrent manager torrentID now of
        (m1, None) \<Rightarrow> (m1, jsonError ''torrent not found'' 404)
      | (m1, Some mt) \<Rightarrow>
          (case body of
             None \<Rightarrow> (m1, jsonError ''invalid request body'' 400)
           | Some fileID \<Rightarrow>
               if fileID = 0 then (m1, jsonError ''fileId is required'' 400)
               else (case subClient_Download fileID of
                 Inl err \<Rightarrow> (m1, jsonError err 502)
               | Inr (content0, fileName0) \<Rightarrow>
                   let ext = strings_ToLower (filepath_Ext fileName0);
                       content = (if ext = ''.srt'' then ConvertSRTtoVTT content0
                                  else content0);
                       fileName =
                         (if ext = ''.srt''
                          then strings_TrimSuffix fileName0 (filepath_Ext fileName0) @ ''.vtt''
                          else fileName0);
                       uploadIndex = - (int (length (Subtitles mt)) + 1);
                       mt' = mt\<lparr>Subtitles := Subtitles mt @
                                [\<lparr>SubName = fileName, SubIndex = uploadIndex,
                                  Content = content\<rparr>]\<rparr>
                   in (m1\<lparr>torrents := (torrents m1)(torrentID \<mapsto> mt')\<rparr>,
                       jsonOK fileName uploadIndex))))"

section \<open>Sequences of operations\<close>

text \<open>
  The operations on a manager, each with the inputs it gets from its caller, from the
  engine and from the clock. For the calls of \<open>AddMagnet\<close> that run concurrently the two
  critical sections are operations of their own, so that a sequence can interleave them.
\<close>

datatype operation =
    OpAddMagnet "string \<Rightarrow> torrent_Torrent option" string bool time
  | OpAddMagnetLookup torrent_Torrent time
  | OpAddMagnetInsert torrent_Torrent bool time
  | OpGetTorrent string time
  | OpSelectFile string int "nat \<Rightarrow> string option" time
  | OpGetFileReader string time
  | OpRemoveTorrent string
  | OpRemoveAll bool
  | OpCleanup int time
  | OpUploadSubtitle string upload_form time
  | OpDownloadSubtitle "int \<Rightarrow> string + string \<times> string" string "int option" time

fun step :: "TorrentManager \<Rightarrow> operation \<Rightarrow> TorrentManager" where
  "step m (OpAddMagnet c uri gotInfo now) = fst (AddMagnet c m uri gotInfo now)"
| "step m (OpAddMagnetLookup t now) = fst (AddMagnet_lookup m t now)"
| "step m (OpAddMagnetInsert t gotInfo now) = fst (AddMagnet_insert m t gotInfo now)"
| "step m (OpGetTorrent tid now) = fst (GetTorrent m tid now)"
| "step m (OpSelectFile tid fileIndex rd now) = fst (SelectFile m tid fileIndex rd now)"
| "step m (OpGetFileReader tid now) = fst (GetFileReader m tid now)"
| "step m (OpRemoveTorrent tid) = RemoveTorrent m tid"
| "step m (OpRemoveAll readDirOk) = fst (RemoveAll m readDirOk)"
| "step m (OpCleanup maxAge now) = cleanup m maxAge now"
| "step m (OpUploadSubtitle tid form now) = fst (handleUploadSubtitle m tid form now)"
| "step m (OpDownloadSubtitle dl tid body now) =
     fst (handleDownloadSubtitle m dl tid body now)"

definition run :: "operation list \<Rightarrow> TorrentManager" where
  "run ops = foldl step NewTorrentManager ops"

text \<open>
  What holds of a session stored under the key \<open>tid\<close> in every state that the operations
  reach: it carries the key as its identifier, its file list is as long as the engine's,
  its selected index is \<open>-1\<close> or a position of the file list, and the indices of its
  subtitles are pairwise different and not below minus the length of the list.
\<close>

definition session_ok :: "string \<Rightarrow> ManagedTorrent \<Rightarrow> bool" where
  "session_ok tid mt =
     (ID mt = tid \<and> InfoHash (Torrent mt) = tid
      \<and> length (TorrentFiles (Torrent mt)) = length (Files mt)
      \<and> (SelectedFile mt = - 1
          \<or> (0 \<le> SelectedFile mt \<and> SelectedFile mt < int (length (Files mt))))
      \<and> distinct (map SubIndex (Subtitles mt))
      \<and> list_all (\<lambda>s. - int (length (Subtitles mt)) \<le> SubIndex s) (Subtitles mt))"

definition manager_ok :: "TorrentManager \<Rightarrow> bool" where
  "manager_ok m = (\<forall>tid mt. torrents m tid = Some mt \<longrightarrow> session_ok tid mt)"

section \<open>The subtitle list that a selection builds\<close>

text \<open>
  One pass of the body of the scan, for the file at a position of \<open>mt.Files\<close>: the entry
  it appends, or \<open>None\<close> when the file is no subtitle or cannot be read.
\<close>

definition scanned :: "(nat \<Rightarrow> string option) \<Rightarrow> nat \<times> FileInfo \<Rightarrow> SubtitleInfo option" where
  "scanned rd p =
     (if \<not> IsSubtitle (snd p) then None
      else case rd (fst p) of
        None \<Rightarrow> None
      | Some raw \<Rightarrow>
          Some \<lparr>SubName = filepath_Base (Path (snd p)), SubIndex = int (fst p),
                Content = (if strings_ToLower (filepath_Ext (Path (snd p))) = ''.srt''
                           then ConvertSRTtoVTT raw else raw)\<rparr>)"

text \<open>The test that sends an entry to the bucket \<open>matched\<close>.\<close>

definition isMatch :: "string \<Rightarrow> string \<Rightarrow> nat \<times> FileInfo \<Rightarrow> bool" where
  "isMatch videoBase videoDir p =
     (strings_HasPrefix (stripExt (filepath_Base (Path (snd p)))) videoBase
      \<or> filepath_Dir (Path (snd p)) = videoDir)"

text \<open>
  The two buckets after the scan of a whole file list with the file at position \<open>k\<close>
  selected (\<open>want\<close> is true for \<open>matched\<close>), and the list stored in the session.
\<close>

definition bucket ::
    "bool \<Rightarrow> FileInfo list \<Rightarrow> nat \<Rightarrow> (nat \<Rightarrow> string option) \<Rightarrow> SubtitleInfo list" where
  "bucket want files k rd =
     List.map_filter (scanned rd)
       (filter (\<lambda>p. isMatch (stripExt (filepath_Base (Path (files ! k))))
                      (filepath_Dir (Path (files ! k))) p = want)
          (enumerate 0 files))"

definition rebuilt :: "FileInfo list \<Rightarrow> nat \<Rightarrow> (nat \<Rightarrow> string option) \<Rightarrow> SubtitleInfo list" where
  "rebuilt files k rd = bucket True files k rd @ bucket False files k rd"

section \<open>An example torrent\<close>

text \<open>
  A video of one GiB, a subtitle in another directory, a subtitle beside the video whose
  name starts with the video's, and a subtitle in a format the converter does not read.
\<close>

definition example_torrent :: torrent_Torrent where
  "example_torrent =
     \<lparr>InfoHash = ''c0ffee'', TorrentName = ''Show'',
      TorrentFiles =
        [\<lparr>DisplayPath = ''Show/S01E01.mkv'', FileLength = 1024 * 1024 * 1024,
          Priority = PiecePriorityNormal\<rparr>,
         \<lparr>DisplayPath = ''Other/random.srt'', FileLength = 40, Priority = PiecePriorityNormal\<rparr>,
         \<lparr>DisplayPath = ''Show/S01E01.en.srt'', FileLength = 40,
          Priority = PiecePriorityNormal\<rparr>,
         \<lparr>DisplayPath = ''Extras/signs.ass'', FileLength = 13,
          Priority = PiecePriorityNormal\<rparr>]\<rparr>"

text \<open>The session that the insert step of \<open>AddMagnet\<close> creates for it at instant 0.\<close>

definition example_session :: ManagedTorrent where
  "example_session =
     \<lparr>Torrent = example_torrent, ID = ''c0ffee'', Name = ''Show'',
      Files = classifyFiles example_torrent, SelectedFile = - 1, Subtitles = [],
      LastAccessed = 0\<rparr>"

section \<open>The converter\<close>

lemmas ConvertSRTtoVTT_eval =
  ConvertSRTtoVTT_def strings_TrimPrefix_def strings_HasPrefix_def BOM_def
  Scanner_lines_def MaxScanTokenSize_def dropCR_def strings_TrimSpace_def isDigitsOnly_def
  isSpace1_def isSpace2_def isSpace3_def strings_ReplaceAll_def Let_def

lemma ConvertSRTtoVTT_basic_cue:
  "ConvertSRTtoVTT ''1\<newline>00:00:01,000 --> 00:00:04,000\<newline>Hello world\<newline>'' =
     ''WEBVTT\<newline>\<newline>'' @ ''00:00:01.000 --> 00:00:04.000\<newline>Hello world\<newline>''"
  by (simp add: ConvertSRTtoVTT_eval)

lemma ConvertSRTtoVTT_Nil: "ConvertSRTtoVTT [] = ''WEBVTT\<newline>\<newline>''"
  by (simp add: ConvertSRTtoVTT_eval)

lemma ConvertSRTtoVTT_strips_one_BOM:
  "\<not> strings_HasPrefix x BOM \<Longrightarrow> ConvertSRTtoVTT (BOM @ x) = ConvertSRTtoVTT x"
  by (auto simp add: ConvertSRTtoVTT_def strings_TrimPrefix_def strings_HasPrefix_def)

text \<open>
  Claim C4, as stated, says that for every input \<open>x\<close> the converter gives the same output
  on the mark followed by \<open>x\<close> as on \<open>x\<close>. The converter strips one mark only: when \<open>x\<close> is
  itself the mark, the input with two marks keeps the second one as a line of the output,
  and the input with one mark gives the header alone.
\<close>

theorem ConvertSRTtoVTT_double_BOM_counterexample:
  "ConvertSRTtoVTT (BOM @ BOM) = ''WEBVTT\<newline>\<newline>'' @ BOM @ ''\<newline>''
   \<and> ConvertSRTtoVTT BOM = ''WEBVTT\<newline>\<newline>''
   \<and> ConvertSRTtoVTT (BOM @ BOM) \<noteq> ConvertSRTtoVTT BOM"
  by (simp add: ConvertSRTtoVTT_eval)

text \<open>
  Claim C4, amended: the converter maps the one-cue fixture to the header followed by the
  cue with periods in its timestamps and without its index line, maps the empty input to
  exactly the header, and for every input that does not itself begin with the byte-order
  mark, gives on the input prefixed with the mark the output it gives on the input.
\<close>

theorem ConvertSRTtoVTT_fixtures:
  "ConvertSRTtoVTT ''1\<newline>00:00:01,000 --> 00:00:04,000\<newline>Hello world\<newline>'' =
     ''WEBVTT\<newline>\<newline>'' @ ''00:00:01.000 --> 00:00:04.000\<newline>Hello world\<newline>''
   \<and> ConvertSRTtoVTT [] = ''WEBVTT\<newline>\<newline>''
   \<and> (\<forall>x. \<not> strings_HasPrefix x BOM \<longrightarrow> ConvertSRTtoVTT (BOM @ x) = ConvertSRTtoVTT x)"
  using ConvertSRTtoVTT_basic_cue ConvertSRTtoVTT_Nil ConvertSRTtoVTT_strips_one_BOM
  by blast

text \<open>
  Witness for C4: the one-cue fixture does not begin with the mark, and with the mark in
  front it converts to the same output.
\<close>

theorem ConvertSRTtoVTT_fixtures_witness:
  "\<not> strings_HasPrefix ''1\<newline>00:00:01,000 --> 00:00:04,000\<newline>Hello world\<newline>'' BOM
   \<and> ConvertSRTtoVTT
         (BOM @ ''1\<newline>00:00:01,000 --> 00:00:04,000\<newline>Hello world\<newline>'') =
       ''WEBVTT\<newline>\<newline>00:00:01.000 --> 00:00:04.000\<newline>Hello world\<newline>''"
proof -
  have h: "\<not> strings_HasPrefix
               ''1\<newline>00:00:01,000 --> 00:00:04,000\<newline>Hello world\<newline>'' BOM"
    by (simp add: strings_HasPrefix_def BOM_def)
  from ConvertSRTtoVTT_fixtures h
  have "ConvertSRTtoVTT
          (BOM @ ''1\<newline>00:00:01,000 --> 00:00:04,000\<newline>Hello world\<newline>'') =
        ConvertSRTtoVTT ''1\<newline>00:00:01,000 --> 00:00:04,000\<newline>Hello world\<newline>''"
    by blast
  with ConvertSRTtoVTT_fixtures h show ?thesis by simp
qed

section \<open>The scan and the invariant\<close>

lemma SelectFile_scan_length:
  "length (fst (SelectFile_scan rd vb vd ps tfs matched other)) = length tfs"
  by (induction ps arbitrary: tfs matched other)
     (auto simp: Let_def split: option.splits)

lemma SelectFile_scan_FileLength:
  "map FileLength (fst (SelectFile_scan rd vb vd ps tfs matched other)) = map FileLength tfs"
proof (induction ps arbitrary: tfs matched other)
  case Nil
  then show ?case by simp
next
  case (Cons p ps)
  obtain i fi where p: "p = (i, fi)" by (cases p)
  have upd: "map FileLength (tfs[i := SetPriority (tfs ! i) PiecePriorityNow]) = map FileLength tfs"
    if "i < length tfs"
    using that by (simp add: map_update SetPriority_def list_update_same_conv)
  show ?case
    using Cons.IH upd by (auto simp: p Let_def split: option.splits)
qed

lemma SelectFile_scan_closed:
  "\<forall>p \<in> set ps. fst p < length tfs \<Longrightarrow>
   snd (SelectFile_scan rd vb vd ps tfs matched other) =
     Some (matched @ List.map_filter (scanned rd) (filter (isMatch vb vd) ps),
           other @ List.map_filter (scanned rd) (filter (\<lambda>p. \<not> isMatch vb vd p) ps))"
proof (induction ps arbitrary: tfs matched other)
  case Nil
  then show ?case by (simp add: List.map_filter_simps)
next
  case (Cons p ps)
  obtain i fi where p: "p = (i, fi)" by (cases p)
  from Cons.prems have i: "i < length tfs" and rest: "\<forall>q \<in> set ps. fst q < length tfs"
    by (auto simp: p)
  have rest': "\<forall>q \<in> set ps. fst q < length (tfs[i := SetPriority (tfs ! i) PiecePriorityNow])"
    using rest by simp
  show ?case
    using i Cons.IH[OF rest] Cons.IH[OF rest']
    by (auto simp: p Let_def scanned_def isMatch_def List.map_filter_simps split: option.splits)
qed

lemma enumerate_as_map: "enumerate 0 xs = map (\<lambda>i. (i, xs ! i)) [0..<length xs]"
  by (rule nth_equalityI) (simp_all add: nth_enumerate_eq)

lemma filter_enumerate:
  "filter Q (enumerate 0 xs) =
     map (\<lambda>i. (i, xs ! i)) (filter (\<lambda>i. Q (i, xs ! i)) [0..<length xs])"
  by (simp add: enumerate_as_map filter_map comp_def)

lemma map_filter_scanned_SubIndex:
  "map SubIndex (List.map_filter (scanned rd) ps) =
     map (\<lambda>p. int (fst p)) (filter (\<lambda>p. IsSubtitle (snd p) \<and> rd (fst p) \<noteq> None) ps)"
  by (induction ps) (auto simp: List.map_filter_simps scanned_def split: option.splits)


lemma SelectFile_success:
  assumes stored: "torrents m tid = Some mt"
    and lo: "0 \<le> fileIndex" and hi: "fileIndex < int (length (Files mt))"
    and len: "length (TorrentFiles (Torrent mt)) = length (Files mt)"
  shows "\<exists>tfs. length tfs = length (Files mt) \<and>
           map FileLength tfs = map FileLength (TorrentFiles (Torrent mt)) \<and>
           SelectFile m tid fileIndex rd now =
             (m\<lparr>torrents := (torrents m)
                  (tid \<mapsto> mt\<lparr>LastAccessed := now,
                             Torrent := (Torrent mt)\<lparr>TorrentFiles := tfs\<rparr>,
                             SelectedFile := fileIndex,
                             Subtitles := rebuilt (Files mt) (nat fileIndex) rd\<rparr>)\<rparr>,
              Inr (mt\<lparr>LastAccessed := now,
                       Torrent := (Torrent mt)\<lparr>TorrentFiles := tfs\<rparr>,
                       SelectedFile := fileIndex,
                       Subtitles := rebuilt (Files mt) (nat fileIndex) rd\<rparr>))"
proof -
  let ?tfs0 = "map (\<lambda>f. SetPriority f PiecePriorityNone) (TorrentFiles (Torrent mt))"
  let ?tfs1 = "?tfs0[nat fileIndex := SetPriority (?tfs0 ! nat fileIndex) PiecePriorityNormal]"
  let ?vb = "stripExt (filepath_Base (Path (Files mt ! nat fileIndex)))"
  let ?vd = "filepath_Dir (Path (Files mt ! nat fileIndex))"
  let ?scan = "SelectFile_scan rd ?vb ?vd (enumerate 0 (Files mt)) ?tfs1 [] []"
  have inb: "\<forall>p \<in> set (enumerate 0 (Files mt)). fst p < length ?tfs1"
    by (auto simp: in_set_enumerate_eq len)
  have s2: "snd ?scan = Some (bucket True (Files mt) (nat fileIndex) rd,
                              bucket False (Files mt) (nat fileIndex) rd)"
    using SelectFile_scan_closed[OF inb, of rd ?vb ?vd "[]" "[]"]
    by (simp add: bucket_def)
  have s1: "length (fst ?scan) = length (Files mt)"
    by (simp add: SelectFile_scan_length len)
  obtain tfs2 where scan: "?scan = (tfs2, Some (bucket True (Files mt) (nat fileIndex) rd,
                              bucket False (Files mt) (nat fileIndex) rd))"
    using s2 by (cases ?scan) auto
  have l2: "length tfs2 = length (Files mt)" using s1 scan by simp
  have "map FileLength (fst ?scan) = map FileLength ?tfs1"
    by (rule SelectFile_scan_FileLength)
  also have "\<dots> = map FileLength (TorrentFiles (Torrent mt))"
    using lo hi len
    by (simp add: map_update SetPriority_def list_update_same_conv comp_def)
  finally have l3: "map FileLength tfs2 = map FileLength (TorrentFiles (Torrent mt))"
    using scan by simp
  have "SelectFile m tid fileIndex rd now =
          (m\<lparr>torrents := (torrents m)
               (tid \<mapsto> mt\<lparr>LastAccessed := now,
                          Torrent := (Torrent mt)\<lparr>TorrentFiles := tfs2\<rparr>,
                          SelectedFile := fileIndex,
                          Subtitles := rebuilt (Files mt) (nat fileIndex) rd\<rparr>)\<rparr>,
           Inr (mt\<lparr>LastAccessed := now,
                    Torrent := (Torrent mt)\<lparr>TorrentFiles := tfs2\<rparr>,
                    SelectedFile := fileIndex,
                    Subtitles := rebuilt (Files mt) (nat fileIndex) rd\<rparr>))"
    using stored lo hi len scan
    by (simp add: SelectFile_def GetTorrent_def Let_def rebuilt_def)
  with l2 l3 show ?thesis by blast
qed

lemma bucket_SubIndex:
  "map SubIndex (bucket want files k rd) =
     map int (filter (\<lambda>i. IsSubtitle (files ! i) \<and> rd i \<noteq> None \<and>
                (strings_HasPrefix (stripExt (filepath_Base (Path (files ! i))))
                     (stripExt (filepath_Base (Path (files ! k))))
                   \<or> filepath_Dir (Path (files ! i)) = filepath_Dir (Path (files ! k))) = want)
              [0..<length files])"
proof -
  have "filter P (filter Q xs) = filter (\<lambda>x. P x \<and> Q x) xs" for P Q and xs :: "nat list"
    by (induction xs) auto
  then show ?thesis
    by (simp add: bucket_def map_filter_scanned_SubIndex filter_enumerate isMatch_def
          filter_map comp_def)
qed

lemma distinct_rebuilt: "distinct (map SubIndex (rebuilt files k rd))"
  unfolding rebuilt_def map_append bucket_SubIndex
  by (auto simp: distinct_map inj_on_def)

lemma rebuilt_nonneg: "s \<in> set (rebuilt files k rd) \<Longrightarrow> 0 \<le> SubIndex s"
proof -
  assume "s \<in> set (rebuilt files k rd)"
  then have "SubIndex s \<in> set (map SubIndex (rebuilt files k rd))" by simp
  then show ?thesis unfolding rebuilt_def map_append bucket_SubIndex by auto
qed


lemma length_classifyFiles: "length (classifyFiles t) = length (TorrentFiles t)"
  by (simp add: classifyFiles_def)

lemma manager_ok_update:
  "manager_ok m \<Longrightarrow> session_ok tid mt \<Longrightarrow>
   manager_ok (m\<lparr>torrents := (torrents m)(tid \<mapsto> mt)\<rparr>)"
  by (simp add: manager_ok_def)

lemma manager_ok_dropped: "manager_ok (m\<lparr>dropped := d\<rparr>) = manager_ok m"
  by (simp add: manager_ok_def)

lemma manager_ok_stored: "manager_ok m \<Longrightarrow> torrents m tid = Some mt \<Longrightarrow> session_ok tid mt"
  by (simp add: manager_ok_def)

lemma session_ok_touch: "session_ok tid mt \<Longrightarrow> session_ok tid (mt\<lparr>LastAccessed := now\<rparr>)"
  by (simp add: session_ok_def)

lemma session_ok_attach:
  assumes "session_ok tid mt"
  shows "session_ok tid
           (mt\<lparr>Subtitles := Subtitles mt @
                  [\<lparr>SubName = n, SubIndex = - (int (length (Subtitles mt)) + 1),
                    Content = c\<rparr>]\<rparr>)"
proof -
  from assms have d: "distinct (map SubIndex (Subtitles mt))"
    and b: "\<forall>s \<in> set (Subtitles mt). - int (length (Subtitles mt)) \<le> SubIndex s"
    by (auto simp: session_ok_def list_all_iff)
  from b have "- (int (length (Subtitles mt)) + 1) \<notin> SubIndex ` set (Subtitles mt)"
    by fastforce
  with d b assms show ?thesis
    by (fastforce simp: session_ok_def list_all_iff)
qed

lemma manager_ok_GetTorrent: "manager_ok m \<Longrightarrow> manager_ok (fst (GetTorrent m tid now))"
  by (auto simp: GetTorrent_def Let_def split: option.splits
           intro!: manager_ok_update session_ok_touch dest: manager_ok_stored)

lemma GetTorrent_Some:
  "torrents m tid = Some mt \<Longrightarrow>
   GetTorrent m tid now =
     (m\<lparr>torrents := (torrents m)(tid \<mapsto> mt\<lparr>LastAccessed := now\<rparr>)\<rparr>,
      Some (mt\<lparr>LastAccessed := now\<rparr>))"
  by (simp add: GetTorrent_def Let_def)

lemma GetTorrent_None: "torrents m tid = None \<Longrightarrow> GetTorrent m tid now = (m, None)"
  by (simp add: GetTorrent_def)

lemma manager_ok_AddMagnet_lookup:
  "manager_ok m \<Longrightarrow> manager_ok (fst (AddMagnet_lookup m t now))"
  by (auto simp: AddMagnet_lookup_def Let_def split: option.splits
           intro!: manager_ok_update session_ok_touch dest: manager_ok_stored)

lemma manager_ok_AddMagnet_insert:
  "manager_ok m \<Longrightarrow> manager_ok (fst (AddMagnet_insert m t gotInfo now))"
  by (auto simp: AddMagnet_insert_def Let_def manager_ok_dropped session_ok_def
                 length_classifyFiles
           split: option.splits intro!: manager_ok_update)

lemma manager_ok_AddMagnet:
  "manager_ok m \<Longrightarrow> manager_ok (fst (AddMagnet c m uri gotInfo now))"
proof (cases "c uri")
  case None
  assume "manager_ok m"
  with None show ?thesis by (simp add: AddMagnet_def)
next
  case (Some t)
  assume ok: "manager_ok m"
  obtain m1 r where l: "AddMagnet_lookup m t now = (m1, r)" by (cases "AddMagnet_lookup m t now")
  from manager_ok_AddMagnet_lookup[OF ok, of t now] l have ok1: "manager_ok m1" by simp
  show ?thesis
    using Some l ok1 manager_ok_AddMagnet_insert[OF ok1, of t gotInfo now]
    by (cases r) (simp_all add: AddMagnet_def)
qed

lemma manager_ok_SelectFile:
  assumes ok: "manager_ok m"
  shows "manager_ok (fst (SelectFile m tid fileIndex rd now))"
proof (cases "torrents m tid")
  case None
  with ok show ?thesis by (simp add: SelectFile_def GetTorrent_None)
next
  case (Some mt)
  from manager_ok_stored[OF ok Some] have sok: "session_ok tid mt" .
  show ?thesis
  proof (cases "fileIndex < 0 \<or> fileIndex \<ge> int (length (Files mt))")
    case True
    then have "fst (SelectFile m tid fileIndex rd now) = fst (GetTorrent m tid now)"
      using Some by (auto simp: SelectFile_def GetTorrent_Some)
    with manager_ok_GetTorrent[OF ok] show ?thesis by simp
  next
    case False
    then have lo: "0 \<le> fileIndex" and hi: "fileIndex < int (length (Files mt))" by auto
    from sok have len: "length (TorrentFiles (Torrent mt)) = length (Files mt)"
      by (simp add: session_ok_def)
    from SelectFile_success[OF Some lo hi len, of rd now]
    obtain tfs where l: "length tfs = length (Files mt)"
      and eq: "fst (SelectFile m tid fileIndex rd now) =
                 m\<lparr>torrents := (torrents m)
                  (tid \<mapsto> mt\<lparr>LastAccessed := now,
                             Torrent := (Torrent mt)\<lparr>TorrentFiles := tfs\<rparr>,
                             SelectedFile := fileIndex,
                             Subtitles := rebuilt (Files mt) (nat fileIndex) rd\<rparr>)\<rparr>"
      by auto
    have "session_ok tid (mt\<lparr>LastAccessed := now,
                             Torrent := (Torrent mt)\<lparr>TorrentFiles := tfs\<rparr>,
                             SelectedFile := fileIndex,
                             Subtitles := rebuilt (Files mt) (nat fileIndex) rd\<rparr>)"
      using sok l lo hi
      by (auto simp: session_ok_def distinct_rebuilt list_all_iff
               dest!: rebuilt_nonneg)
    with eq ok show ?thesis by (simp add: manager_ok_update)
  qed
qed

lemma fst_GetFileReader: "fst (GetFileReader m tid now) = fst (GetTorrent m tid now)"
  by (cases "torrents m tid") (simp_all add: GetFileReader_def GetTorrent_def Let_def)

lemma manager_ok_RemoveTorrent: "manager_ok m \<Longrightarrow> manager_ok (RemoveTorrent m tid)"
  by (auto simp: RemoveTorrent_def manager_ok_def split: option.splits)

lemma manager_ok_RemoveAll: "manager_ok (fst (RemoveAll m b))"
  by (simp add: RemoveAll_def manager_ok_def)

lemma manager_ok_cleanup: "manager_ok m \<Longrightarrow> manager_ok (cleanup m maxAge now)"
  by (auto simp: cleanup_def manager_ok_def split: option.splits if_splits)

lemma manager_ok_handleUploadSubtitle:
  assumes ok: "manager_ok m"
  shows "manager_ok (fst (handleUploadSubtitle m tid form now))"
proof (cases "torrents m tid")
  case None
  with ok show ?thesis by (simp add: handleUploadSubtitle_def GetTorrent_None)
next
  case (Some mt)
  have ok1: "manager_ok (m\<lparr>torrents := (torrents m)(tid \<mapsto> mt\<lparr>LastAccessed := now\<rparr>)\<rparr>)"
    using manager_ok_GetTorrent[OF ok, of tid now] Some by (simp add: GetTorrent_Some)
  have s1: "session_ok tid (mt\<lparr>LastAccessed := now\<rparr>)"
    using manager_ok_stored[OF ok Some] by (rule session_ok_touch)
  show ?thesis
    using ok ok1 Some manager_ok_update[OF ok1 session_ok_attach[OF s1]]
    by (cases form) (simp_all add: handleUploadSubtitle_def GetTorrent_Some Let_def)
qed

lemma manager_ok_handleDownloadSubtitle:
  assumes ok: "manager_ok m"
  shows "manager_ok (fst (handleDownloadSubtitle m dl tid body now))"
proof (cases "torrents m tid")
  case None
  with ok show ?thesis by (simp add: handleDownloadSubtitle_def GetTorrent_None)
next
  case (Some mt)
  have ok1: "manager_ok (m\<lparr>torrents := (torrents m)(tid \<mapsto> mt\<lparr>LastAccessed := now\<rparr>)\<rparr>)"
    using manager_ok_GetTorrent[OF ok, of tid now] Some by (simp add: GetTorrent_Some)
  have s1: "session_ok tid (mt\<lparr>LastAccessed := now\<rparr>)"
    using manager_ok_stored[OF ok Some] by (rule session_ok_touch)
  show ?thesis
    using ok ok1 Some manager_ok_update[OF ok1 session_ok_attach[OF s1]]
    by (auto simp: handleDownloadSubtitle_def GetTorrent_Some Let_def
             split: option.splits sum.splits)
qed

lemma manager_ok_step: "manager_ok m \<Longrightarrow> manager_ok (step m op)"
  by (cases op)
     (simp_all add: manager_ok_AddMagnet manager_ok_AddMagnet_lookup
        manager_ok_AddMagnet_insert manager_ok_GetTorrent manager_ok_SelectFile
        fst_GetFileReader manager_ok_RemoveTorrent manager_ok_RemoveAll manager_ok_cleanup
        manager_ok_handleUploadSubtitle manager_ok_handleDownloadSubtitle)

lemma manager_ok_foldl: "manager_ok m \<Longrightarrow> manager_ok (foldl step m ops)"
  by (induction ops arbitrary: m) (simp_all add: manager_ok_step)

lemma manager_ok_run: "manager_ok (run ops)"
  unfolding run_def
  by (rule manager_ok_foldl) (simp add: manager_ok_def NewTorrentManager_def)

section \<open>What the operations return\<close>

lemma AddMagnet_insert_existing:
  "torrents m (InfoHash t) = Some existing \<Longrightarrow>
   AddMagnet_insert m t True now = (m\<lparr>dropped := insert t (dropped m)\<rparr>, Inr existing)"
  by (simp add: AddMagnet_insert_def Let_def)

lemma AddMagnet_insert_new:
  "torrents m (InfoHash t) = None \<Longrightarrow>
   AddMagnet_insert m t True now =
     (m\<lparr>torrents := (torrents m)
          (InfoHash t \<mapsto> \<lparr>Torrent = t, ID = InfoHash t, Name = TorrentName t,
                          Files = classifyFiles t, SelectedFile = - 1, Subtitles = [],
                          LastAccessed = now\<rparr>)\<rparr>,
      Inr \<lparr>Torrent = t, ID = InfoHash t, Name = TorrentName t,
           Files = classifyFiles t, SelectedFile = - 1, Subtitles = [],
           LastAccessed = now\<rparr>)"
  by (simp add: AddMagnet_insert_def Let_def)

lemma AddMagnet_lookup_None:
  "torrents m (InfoHash t) = None \<Longrightarrow> AddMagnet_lookup m t now = (m, None)"
  by (simp add: AddMagnet_lookup_def Let_def)

lemma AddMagnet_lookup_Some:
  "torrents m (InfoHash t) = Some mt \<Longrightarrow>
   AddMagnet_lookup m t now =
     (m\<lparr>torrents := (torrents m)(InfoHash t \<mapsto> mt\<lparr>LastAccessed := now\<rparr>)\<rparr>,
      Some (mt\<lparr>LastAccessed := now\<rparr>))"
  by (simp add: AddMagnet_lookup_def Let_def)

lemma AddMagnet_race:
  assumes same: "InfoHash t1 = InfoHash t2" and fresh: "torrents m (InfoHash t1) = None"
  shows "\<exists>mt m1 m2.
           AddMagnet_lookup m t1 n1 = (m, None) \<and> AddMagnet_lookup m t2 n2 = (m, None)
           \<and> AddMagnet_insert m t1 True n3 = (m1, Inr mt)
           \<and> AddMagnet_insert m1 t2 True n4 = (m2, Inr mt)
           \<and> ID mt = InfoHash t1
           \<and> torrents m2 = (torrents m)(InfoHash t1 \<mapsto> mt)
           \<and> dropped m2 = insert t2 (dropped m)"
proof -
  let ?mt = "\<lparr>Torrent = t1, ID = InfoHash t1, Name = TorrentName t1,
               Files = classifyFiles t1, SelectedFile = - 1, Subtitles = [],
               LastAccessed = n3\<rparr>"
  let ?m1 = "m\<lparr>torrents := (torrents m)(InfoHash t1 \<mapsto> ?mt)\<rparr>"
  have a: "AddMagnet_insert m t1 True n3 = (?m1, Inr ?mt)"
    using fresh by (rule AddMagnet_insert_new)
  have "torrents ?m1 (InfoHash t2) = Some ?mt" using same by simp
  then have b: "AddMagnet_insert ?m1 t2 True n4 = (?m1\<lparr>dropped := insert t2 (dropped ?m1)\<rparr>, Inr ?mt)"
    by (rule AddMagnet_insert_existing)
  have l1: "AddMagnet_lookup m t1 n1 = (m, None)" using fresh by (rule AddMagnet_lookup_None)
  have l2: "AddMagnet_lookup m t2 n2 = (m, None)"
    using fresh same by (simp add: AddMagnet_lookup_None)
  show ?thesis
    using a b l1 l2 by (intro exI[of _ ?mt] exI[of _ ?m1]
                         exI[of _ "?m1\<lparr>dropped := insert t2 (dropped ?m1)\<rparr>"]) simp
qed

lemma AddMagnet_twice:
  assumes ok: "manager_ok m" and c: "c uri = Some t"
  shows "\<exists>mt1 mt2 m1 m2.
           AddMagnet c m uri True n1 = (m1, Inr mt1)
           \<and> AddMagnet c m1 uri g n2 = (m2, Inr mt2)
           \<and> ID mt1 = InfoHash t \<and> ID mt2 = InfoHash t
           \<and> torrents m2 (InfoHash t) = Some mt2
           \<and> dom (torrents m2) = insert (InfoHash t) (dom (torrents m))"
proof -
  obtain m1 r1 where first: "AddMagnet c m uri True n1 = (m1, r1)"
    by (cases "AddMagnet c m uri True n1")
  have "\<exists>mt1. r1 = Inr mt1 \<and> ID mt1 = InfoHash t \<and> torrents m1 (InfoHash t) = Some mt1
          \<and> dom (torrents m1) = insert (InfoHash t) (dom (torrents m))"
  proof (cases "torrents m (InfoHash t)")
    case None
    then show ?thesis
      using first c by (auto simp: AddMagnet_def AddMagnet_lookup_None AddMagnet_insert_new)
  next
    case (Some mt)
    from manager_ok_stored[OF ok Some] have "ID mt = InfoHash t" by (simp add: session_ok_def)
    then show ?thesis
      using first c Some by (auto simp: AddMagnet_def AddMagnet_lookup_Some)
  qed
  then obtain mt1 where r1: "r1 = Inr mt1" and id1: "ID mt1 = InfoHash t"
    and st1: "torrents m1 (InfoHash t) = Some mt1"
    and d1: "dom (torrents m1) = insert (InfoHash t) (dom (torrents m))" by blast
  have second: "AddMagnet c m1 uri g n2 =
          (m1\<lparr>torrents := (torrents m1)(InfoHash t \<mapsto> mt1\<lparr>LastAccessed := n2\<rparr>)\<rparr>,
           Inr (mt1\<lparr>LastAccessed := n2\<rparr>))"
    using c st1 by (simp add: AddMagnet_def AddMagnet_lookup_Some)
  show ?thesis
    using first r1 id1 second d1
    by (intro exI[of _ mt1] exI[of _ "mt1\<lparr>LastAccessed := n2\<rparr>"] exI[of _ m1]
          exI[of _ "m1\<lparr>torrents := (torrents m1)(InfoHash t \<mapsto> mt1\<lparr>LastAccessed := n2\<rparr>)\<rparr>"])
       auto
qed

lemma run_Nil: "run [] = NewTorrentManager"
  by (simp add: run_def)

lemma GetFileReader_success:
  assumes stored: "torrents m tid = Some mt" and lo: "0 \<le> SelectedFile mt"
    and hi: "nat (SelectedFile mt) < length (TorrentFiles (Torrent mt))"
  shows "GetFileReader m tid now =
           (m\<lparr>torrents := (torrents m)(tid \<mapsto> mt\<lparr>LastAccessed := now\<rparr>)\<rparr>,
            Inr (\<lparr>Readahead =
                    (if FileLength (TorrentFiles (Torrent mt) ! nat (SelectedFile mt))
                          \<le> 500 * 1024 * 1024 then 16 * 1024 * 1024
                     else if FileLength (TorrentFiles (Torrent mt) ! nat (SelectedFile mt))
                          \<le> 2 * 1024 * 1024 * 1024 then 32 * 1024 * 1024
                     else 64 * 1024 * 1024),
                  Responsive = True\<rparr>,
                 TorrentFiles (Torrent mt) ! nat (SelectedFile mt)))"
  using assms by (simp add: GetFileReader_def GetTorrent_Some Let_def)

lemma GetFileReader_no_panic:
  assumes ok: "manager_ok m"
  shows "snd (GetFileReader m tid now) \<noteq> Inl PanicIndexOutOfRange"
proof (cases "torrents m tid")
  case None
  then show ?thesis by (simp add: GetFileReader_def GetTorrent_None)
next
  case (Some mt)
  from manager_ok_stored[OF ok Some] have
    "length (TorrentFiles (Torrent mt)) = length (Files mt)"
    "SelectedFile mt = - 1 \<or> (0 \<le> SelectedFile mt \<and> SelectedFile mt < int (length (Files mt)))"
    by (simp_all add: session_ok_def)
  then show ?thesis
    using Some by (auto simp: GetFileReader_def GetTorrent_Some Let_def)
qed

lemma handleUploadSubtitle_file:
  assumes "torrents m tid = Some mt" "tid \<noteq> []"
  shows "handleUploadSubtitle m tid (FormFile filename bytes) now =
     (m\<lparr>torrents := (torrents m)
          (tid \<mapsto> mt\<lparr>LastAccessed := now,
                     Subtitles := Subtitles mt @
                       [\<lparr>SubName =
                           (if strings_ToLower (filepath_Ext filename) = ''.srt''
                            then strings_TrimSuffix filename (filepath_Ext filename) @ ''.vtt''
                            else filename),
                         SubIndex = - (int (length (Subtitles mt)) + 1),
                         Content =
                           (if strings_ToLower (filepath_Ext filename) = ''.srt''
                            then ConvertSRTtoVTT (take maxUploadSize bytes)
                            else take maxUploadSize bytes)\<rparr>]\<rparr>)\<rparr>,
      jsonOK (if strings_ToLower (filepath_Ext filename) = ''.srt''
              then strings_TrimSuffix filename (filepath_Ext filename) @ ''.vtt''
              else filename)
             (- (int (length (Subtitles mt)) + 1)))"
  using assms by (simp add: handleUploadSubtitle_def GetTorrent_Some Let_def)

lemma handleDownloadSubtitle_file:
  assumes "torrents m tid = Some mt" "tid \<noteq> []" "fileID \<noteq> 0"
    "dl fileID = Inr (content0, fileName0)"
  shows "handleDownloadSubtitle m dl tid (Some fileID) now =
     (m\<lparr>torrents := (torrents m)
          (tid \<mapsto> mt\<lparr>LastAccessed := now,
                     Subtitles := Subtitles mt @
                       [\<lparr>SubName =
                           (if strings_ToLower (filepath_Ext fileName0) = ''.srt''
                            then strings_TrimSuffix fileName0 (filepath_Ext fileName0) @ ''.vtt''
                            else fileName0),
                         SubIndex = - (int (length (Subtitles mt)) + 1),
                         Content =
                           (if strings_ToLower (filepath_Ext fileName0) = ''.srt''
                            then ConvertSRTtoVTT content0 else content0)\<rparr>]\<rparr>)\<rparr>,
      jsonOK (if strings_ToLower (filepath_Ext fileName0) = ''.srt''
              then strings_TrimSuffix fileName0 (filepath_Ext fileName0) @ ''.vtt''
              else fileName0)
             (- (int (length (Subtitles mt)) + 1)))"
  using assms by (simp add: handleDownloadSubtitle_def GetTorrent_Some Let_def)

lemma SelectFile_reachable:
  assumes stored: "torrents (run ops) tid = Some mt"
    and lo: "0 \<le> fileIndex" and hi: "fileIndex < int (length (Files mt))"
  shows "\<exists>tfs. length tfs = length (Files mt) \<and>
           map FileLength tfs = map FileLength (TorrentFiles (Torrent mt)) \<and>
           SelectFile (run ops) tid fileIndex rd now =
             ((run ops)\<lparr>torrents := (torrents (run ops))
                  (tid \<mapsto> mt\<lparr>LastAccessed := now,
                             Torrent := (Torrent mt)\<lparr>TorrentFiles := tfs\<rparr>,
                             SelectedFile := fileIndex,
                             Subtitles := rebuilt (Files mt) (nat fileIndex) rd\<rparr>)\<rparr>,
              Inr (mt\<lparr>LastAccessed := now,
                       Torrent := (Torrent mt)\<lparr>TorrentFiles := tfs\<rparr>,
                       SelectedFile := fileIndex,
                       Subtitles := rebuilt (Files mt) (nat fileIndex) rd\<rparr>))"
proof -
  from manager_ok_stored[OF manager_ok_run stored]
  have "length (TorrentFiles (Torrent mt)) = length (Files mt)" by (simp add: session_ok_def)
  from SelectFile_success[OF stored lo hi this] show ?thesis .
qed

lemma rebuilt_SubIndex:
  "map SubIndex (rebuilt files k rd) =
     map int
       (filter (\<lambda>i. strings_HasPrefix (stripExt (filepath_Base (Path (files ! i))))
                      (stripExt (filepath_Base (Path (files ! k))))
                    \<or> filepath_Dir (Path (files ! i)) = filepath_Dir (Path (files ! k)))
          (filter (\<lambda>i. IsSubtitle (files ! i) \<and> rd i \<noteq> None) [0..<length files])
        @ filter (\<lambda>i. \<not> (strings_HasPrefix (stripExt (filepath_Base (Path (files ! i))))
                           (stripExt (filepath_Base (Path (files ! k))))
                         \<or> filepath_Dir (Path (files ! i)) = filepath_Dir (Path (files ! k))))
          (filter (\<lambda>i. IsSubtitle (files ! i) \<and> rd i \<noteq> None) [0..<length files]))"
proof -
  have f: "filter P (filter Q xs) = filter (\<lambda>x. Q x \<and> P x) xs" for P Q and xs :: "nat list"
    by (induction xs) auto
  show ?thesis
    unfolding rebuilt_def map_append bucket_SubIndex f
    by (simp cong: conj_cong)
qed

lemma rebuilt_SubIndex_set:
  "SubIndex ` set (rebuilt files k rd) =
     int ` {i. i < length files \<and> IsSubtitle (files ! i) \<and> rd i \<noteq> None}"
proof -
  have "SubIndex ` set (rebuilt files k rd) = set (map SubIndex (rebuilt files k rd))" by simp
  also have "\<dots> = int ` {i. i < length files \<and> IsSubtitle (files ! i) \<and> rd i \<noteq> None}"
    unfolding rebuilt_SubIndex by auto
  finally show ?thesis .
qed

lemma rebuilt_entry:
  assumes "s \<in> set (rebuilt files k rd)"
  shows "\<exists>i raw. i < length files \<and> IsSubtitle (files ! i) \<and> rd i = Some raw
           \<and> SubIndex s = int i \<and> SubName s = filepath_Base (Path (files ! i))
           \<and> Content s = (if strings_ToLower (filepath_Ext (Path (files ! i))) = ''.srt''
                           then ConvertSRTtoVTT raw else raw)"
proof -
  from assms obtain p where p: "p \<in> set (enumerate 0 files)" and sc: "scanned rd p = Some s"
    by (auto simp: rebuilt_def bucket_def List.map_filter_def)
  from p have i: "fst p < length files" and e: "snd p = files ! fst p"
    by (auto simp: in_set_enumerate_eq)
  from sc show ?thesis
    using i e by (auto simp: scanned_def split: if_splits option.splits)
qed

lemma ConvertSRTtoVTT_loop_extends:
  "\<exists>r. ConvertSRTtoVTT_loop buf afterBlank ls = buf @ r"
proof (induction ls arbitrary: buf afterBlank)
  case Nil
  then show ?case by simp
next
  case (Cons l ls)
  show ?case
  proof (cases "afterBlank \<and> isDigitsOnly (strings_TrimSpace l)")
    case True
    then show ?thesis using Cons.IH[of buf False] by simp
  next
    case False
    let ?l = "if strings_Contains l ''-->'' then strings_ReplaceAll l (CHR '','') (CHR ''.'') else l"
    from Cons.IH[of "buf @ ?l @ [CHR 0x0A]" "strings_TrimSpace l = []"]
    obtain r where "ConvertSRTtoVTT_loop (buf @ ?l @ [CHR 0x0A]) (strings_TrimSpace l = []) ls
                      = (buf @ ?l @ [CHR 0x0A]) @ r" by blast
    moreover have "ConvertSRTtoVTT_loop buf afterBlank (l # ls) =
        ConvertSRTtoVTT_loop (buf @ ?l @ [CHR 0x0A]) (strings_TrimSpace l = []) ls"
      using False by (auto simp: Let_def)
    ultimately have "ConvertSRTtoVTT_loop buf afterBlank (l # ls) = buf @ (?l @ [CHR 0x0A] @ r)"
      by simp
    then show ?thesis by blast
  qed
qed

lemma ConvertSRTtoVTT_header:
  "strings_HasPrefix (ConvertSRTtoVTT raw) ''WEBVTT\<newline>\<newline>''"
proof -
  obtain r where "ConvertSRTtoVTT raw = ''WEBVTT\<newline>\<newline>'' @ r"
    unfolding ConvertSRTtoVTT_def Let_def using ConvertSRTtoVTT_loop_extends by blast
  then show ?thesis by (simp add: strings_HasPrefix_def)
qed

lemma handleUploadSubtitle_keeps:
  assumes "torrents m tid = Some mt"
  shows "\<exists>mt'. torrents (fst (handleUploadSubtitle m tid form now)) tid = Some mt'
           \<and> Files mt' = Files mt
           \<and> length (TorrentFiles (Torrent mt')) = length (TorrentFiles (Torrent mt))"
  using assms
  by (cases form) (auto simp: handleUploadSubtitle_def GetTorrent_Some Let_def)

lemma SelectFile_Subtitles_only_Files:
  assumes stored: "torrents m tid = Some mt"
    and lo: "0 \<le> b" and hi: "b < int (length (Files mt))"
    and len: "length (TorrentFiles (Torrent mt)) = length (Files mt)"
  shows "\<exists>m' mt'. SelectFile m tid b rd now = (m', Inr mt')
           \<and> torrents m' tid = Some mt'
           \<and> Subtitles mt' = rebuilt (Files mt) (nat b) rd"
proof -
  from SelectFile_success[OF stored lo hi len, of rd now] obtain tfs where
    eq: "SelectFile m tid b rd now =
             (m\<lparr>torrents := (torrents m)
                  (tid \<mapsto> mt\<lparr>LastAccessed := now,
                             Torrent := (Torrent mt)\<lparr>TorrentFiles := tfs\<rparr>,
                             SelectedFile := b,
                             Subtitles := rebuilt (Files mt) (nat b) rd\<rparr>)\<rparr>,
              Inr (mt\<lparr>LastAccessed := now,
                       Torrent := (Torrent mt)\<lparr>TorrentFiles := tfs\<rparr>,
                       SelectedFile := b,
                       Subtitles := rebuilt (Files mt) (nat b) rd\<rparr>))"
    by blast
  let ?mt' = "mt\<lparr>LastAccessed := now,
                       Torrent := (Torrent mt)\<lparr>TorrentFiles := tfs\<rparr>,
                       SelectedFile := b,
                       Subtitles := rebuilt (Files mt) (nat b) rd\<rparr>"
  let ?m' = "m\<lparr>torrents := (torrents m)(tid \<mapsto> ?mt')\<rparr>"
  have "torrents ?m' tid = Some ?mt'" by simp
  moreover have "Subtitles ?mt' = rebuilt (Files mt) (nat b) rd" by simp
  ultimately show ?thesis using eq by blast
qed

lemma SelectFile_keeps:
  assumes stored: "torrents m tid = Some mt"
    and len: "length (TorrentFiles (Torrent mt)) = length (Files mt)"
  shows "\<exists>mt'. torrents (fst (SelectFile m tid a rd now)) tid = Some mt'
           \<and> Files mt' = Files mt
           \<and> length (TorrentFiles (Torrent mt')) = length (TorrentFiles (Torrent mt))"
proof (cases "a < 0 \<or> a \<ge> int (length (Files mt))")
  case True
  then show ?thesis using stored by (auto simp: SelectFile_def GetTorrent_Some)
next
  case False
  then have lo: "0 \<le> a" and hi: "a < int (length (Files mt))" by auto
  from SelectFile_success[OF stored lo hi len, of rd now] obtain tfs where
    l: "length tfs = length (Files mt)" and
    eq: "SelectFile m tid a rd now =
             (m\<lparr>torrents := (torrents m)
                  (tid \<mapsto> mt\<lparr>LastAccessed := now,
                             Torrent := (Torrent mt)\<lparr>TorrentFiles := tfs\<rparr>,
                             SelectedFile := a,
                             Subtitles := rebuilt (Files mt) (nat a) rd\<rparr>)\<rparr>,
              Inr (mt\<lparr>LastAccessed := now,
                       Torrent := (Torrent mt)\<lparr>TorrentFiles := tfs\<rparr>,
                       SelectedFile := a,
                       Subtitles := rebuilt (Files mt) (nat a) rd\<rparr>))"
    by blast
  show ?thesis unfolding eq using l len by simp
qed

section \<open>The example, evaluated\<close>

lemmas path_eval =
  filepath_Ext_def filepath_Base_def filepath_Dir_def filepath_Clean_def IsPathSeparator_def
  stripExt_def strings_TrimSuffix_def strings_HasSuffix_def strings_HasPrefix_def
  toLowerASCII_def Let_def

lemma run_snoc: "run (ops @ [op]) = step (run ops) op"
  by (simp add: run_def)

lemma example_files:
  "classifyFiles example_torrent =
     [\<lparr>Index = 0, Path = ''Show/S01E01.mkv'', Length = 1024 * 1024 * 1024,
       IsVideo = True, IsSubtitle = False\<rparr>,
      \<lparr>Index = 1, Path = ''Other/random.srt'', Length = 40,
       IsVideo = False, IsSubtitle = True\<rparr>,
      \<lparr>Index = 2, Path = ''Show/S01E01.en.srt'', Length = 40,
       IsVideo = False, IsSubtitle = True\<rparr>,
      \<lparr>Index = 3, Path = ''Extras/signs.ass'', Length = 13,
       IsVideo = False, IsSubtitle = True\<rparr>]"
  by (simp add: classifyFiles_def example_torrent_def path_eval videoExtensions_def
        subtitleExtensions_def)

lemma example_run:
  "run [OpAddMagnetInsert example_torrent True 0] =
     \<lparr>torrents = [''c0ffee'' \<mapsto> example_session], dropped = {}\<rparr>"
  by (simp add: run_def NewTorrentManager_def AddMagnet_insert_def Let_def example_session_def)
     (simp add: example_torrent_def)

lemma example_stored:
  "torrents (run [OpAddMagnetInsert example_torrent True 0]) ''c0ffee'' = Some example_session"
  by (simp add: example_run)

lemma example_length: "length (Files example_session) = 4"
  by (simp add: example_session_def length_classifyFiles) (simp add: example_torrent_def)

lemma example_selected:
  "\<exists>tfs. length tfs = 4
      \<and> map FileLength tfs = [1024 * 1024 * 1024, 40, 40, 13]
      \<and> run [OpAddMagnetInsert example_torrent True 0, OpSelectFile ''c0ffee'' 0 rd 1] =
          \<lparr>torrents =
             [''c0ffee'' \<mapsto>
                example_session\<lparr>LastAccessed := 1,
                  Torrent := example_torrent\<lparr>TorrentFiles := tfs\<rparr>,
                  SelectedFile := 0,
                  Subtitles := rebuilt (classifyFiles example_torrent) 0 rd\<rparr>],
           dropped = {}\<rparr>"
proof -
  have lo: "(0::int) \<le> 0" by simp
  have hi: "0 < int (length (Files example_session))" by (simp add: example_length)
  from SelectFile_reachable[OF example_stored lo hi, of rd 1] obtain tfs where
    l: "length tfs = length (Files example_session)"
    and fl: "map FileLength tfs = map FileLength (TorrentFiles (Torrent example_session))"
    and eq: "SelectFile (run [OpAddMagnetInsert example_torrent True 0]) ''c0ffee'' 0 rd 1 =
             ((run [OpAddMagnetInsert example_torrent True 0])
                \<lparr>torrents := (torrents (run [OpAddMagnetInsert example_torrent True 0]))
                  (''c0ffee'' \<mapsto> example_session\<lparr>LastAccessed := 1,
                             Torrent := (Torrent example_session)\<lparr>TorrentFiles := tfs\<rparr>,
                             SelectedFile := 0,
                             Subtitles := rebuilt (Files example_session) (nat 0) rd\<rparr>)\<rparr>,
              Inr (example_session\<lparr>LastAccessed := 1,
                       Torrent := (Torrent example_session)\<lparr>TorrentFiles := tfs\<rparr>,
                       SelectedFile := 0,
                       Subtitles := rebuilt (Files example_session) (nat 0) rd\<rparr>))"
    by blast
  have f: "map FileLength tfs = [1024 * 1024 * 1024, 40, 40, 13]"
    unfolding fl by (simp add: example_session_def) (simp add: example_torrent_def)
  have "run [OpAddMagnetInsert example_torrent True 0, OpSelectFile ''c0ffee'' 0 rd 1] =
          step (run [OpAddMagnetInsert example_torrent True 0]) (OpSelectFile ''c0ffee'' 0 rd 1)"
    using run_snoc[of "[OpAddMagnetInsert example_torrent True 0]"] by simp
  also have "\<dots> = \<lparr>torrents =
             [''c0ffee'' \<mapsto>
                example_session\<lparr>LastAccessed := 1,
                  Torrent := example_torrent\<lparr>TorrentFiles := tfs\<rparr>,
                  SelectedFile := 0,
                  Subtitles := rebuilt (classifyFiles example_torrent) 0 rd\<rparr>],
           dropped = {}\<rparr>"
    by (simp add: eq) (simp add: example_run example_session_def)
  finally have r: "run [OpAddMagnetInsert example_torrent True 0, OpSelectFile ''c0ffee'' 0 rd 1] =
          \<lparr>torrents =
             [''c0ffee'' \<mapsto>
                example_session\<lparr>LastAccessed := 1,
                  Torrent := example_torrent\<lparr>TorrentFiles := tfs\<rparr>,
                  SelectedFile := 0,
                  Subtitles := rebuilt (classifyFiles example_torrent) 0 rd\<rparr>],
           dropped = {}\<rparr>" .
  from l have l4: "length tfs = 4" by (simp add: example_length)
  show ?thesis
    by (rule exI[of _ tfs]) (intro conjI l4 f r)
qed

lemma example_rebuilt_all:
  "map SubIndex (rebuilt (classifyFiles example_torrent) 0 (\<lambda>i. Some [])) = [2, 1, 3]"
  unfolding example_files
  by (simp add: rebuilt_def bucket_def isMatch_def scanned_def List.map_filter_simps path_eval)

lemma example_rebuilt_ass:
  "map Content (rebuilt (classifyFiles example_torrent) 0
      (\<lambda>i. if i = 3 then Some ''[Script Info]'' else None)) = [''[Script Info]'']"
  unfolding example_files
  by (simp add: rebuilt_def bucket_def isMatch_def scanned_def List.map_filter_simps path_eval)

lemma example_rebuilt_srt:
  "map Content (rebuilt (classifyFiles example_torrent) 0
      (\<lambda>i. if i = 2 then Some ''1\<newline>a\<newline>'' else None)) = [''WEBVTT\<newline>\<newline>a\<newline>'']"
proof -
  have c: "ConvertSRTtoVTT ''1\<newline>a\<newline>'' = ''WEBVTT\<newline>\<newline>a\<newline>''"
    by (simp add: ConvertSRTtoVTT_eval)
  show ?thesis
    unfolding example_files
    by (simp add: rebuilt_def bucket_def isMatch_def scanned_def List.map_filter_simps
          path_eval c)
qed

section \<open>The claims\<close>

text \<open>
  Claim C1: in every state that a sequence of operations reaches, a stored session carries
  the key it is stored under as its identifier, so two stored sessions with the same
  identifier are one entry of the map. When the insert step of \<open>AddMagnet\<close> finds a session
  stored under the handle's identifier, it drops its own handle and returns the stored
  session, leaving the map as it is. When two calls for handles with one identifier both
  pass the first lookup before either inserts, the first insert stores its session and the
  second returns that same session and drops its handle: the map gains one entry. Two
  complete calls with one descriptor both return a session with the handle's identifier,
  and the map has gained at most that one key.
\<close>

theorem registry_one_session_per_identifier:
  "(\<forall>tid mt. torrents (run ops) tid = Some mt \<longrightarrow> ID mt = tid)
   \<and> (\<forall>k1 k2 mt1 mt2. torrents (run ops) k1 = Some mt1 \<and> torrents (run ops) k2 = Some mt2
          \<and> ID mt1 = ID mt2 \<longrightarrow> k1 = k2)
   \<and> (\<forall>t existing now. torrents (run ops) (InfoHash t) = Some existing \<longrightarrow>
          AddMagnet_insert (run ops) t True now =
            ((run ops)\<lparr>dropped := insert t (dropped (run ops))\<rparr>, Inr existing))
   \<and> (\<forall>t1 t2 n1 n2 n3 n4.
          InfoHash t1 = InfoHash t2 \<and> torrents (run ops) (InfoHash t1) = None \<longrightarrow>
          (\<exists>mt m1 m2.
             AddMagnet_lookup (run ops) t1 n1 = (run ops, None)
             \<and> AddMagnet_lookup (run ops) t2 n2 = (run ops, None)
             \<and> AddMagnet_insert (run ops) t1 True n3 = (m1, Inr mt)
             \<and> AddMagnet_insert m1 t2 True n4 = (m2, Inr mt)
             \<and> ID mt = InfoHash t1
             \<and> torrents m2 = (torrents (run ops))(InfoHash t1 \<mapsto> mt)
             \<and> dropped m2 = insert t2 (dropped (run ops))))
   \<and> (\<forall>c uri t g n1 n2. c uri = Some t \<longrightarrow>
          (\<exists>mt1 mt2 m1 m2.
             AddMagnet c (run ops) uri True n1 = (m1, Inr mt1)
             \<and> AddMagnet c m1 uri g n2 = (m2, Inr mt2)
             \<and> ID mt1 = InfoHash t \<and> ID mt2 = InfoHash t
             \<and> torrents m2 (InfoHash t) = Some mt2
             \<and> dom (torrents m2) = insert (InfoHash t) (dom (torrents (run ops)))))"
proof -
  have ok: "manager_ok (run ops)" by (rule manager_ok_run)
  have key: "ID mt = tid" if "torrents (run ops) tid = Some mt" for tid mt
    using manager_ok_stored[OF ok that] by (simp add: session_ok_def)
  have one: "k1 = k2" if "torrents (run ops) k1 = Some mt1" "torrents (run ops) k2 = Some mt2"
    "ID mt1 = ID mt2" for k1 k2 mt1 mt2
    using key[OF that(1)] key[OF that(2)] that(3) by simp
  show ?thesis
    using key one AddMagnet_insert_existing AddMagnet_race AddMagnet_twice[OF ok]
    by (intro conjI allI impI) (blast+)
qed


text \<open>
  Witness for C1: from the empty registry, two insert steps for the example torrent return
  the same session, store one entry and drop the second handle.
\<close>

theorem registry_one_session_per_identifier_witness:
  "torrents (run []) (InfoHash example_torrent) = None
   \<and> (\<exists>mt m1 m2.
         AddMagnet_insert (run []) example_torrent True 1 = (m1, Inr mt)
         \<and> AddMagnet_insert m1 example_torrent True 2 = (m2, Inr mt)
         \<and> ID mt = ''c0ffee''
         \<and> dom (torrents m2) = {''c0ffee''}
         \<and> dropped m2 = {example_torrent})"
proof -
  have h: "torrents (run []) (InfoHash example_torrent) = None"
    by (simp add: run_Nil NewTorrentManager_def)
  from registry_one_session_per_identifier[of "[]", THEN conjunct2, THEN conjunct2, THEN conjunct2, THEN conjunct1,
          rule_format, of example_torrent example_torrent 0 0 1 2] h
  obtain mt m1 m2 where
    "AddMagnet_insert (run []) example_torrent True 1 = (m1, Inr mt)"
    "AddMagnet_insert m1 example_torrent True 2 = (m2, Inr mt)"
    "ID mt = InfoHash example_torrent"
    "torrents m2 = (torrents (run []))(InfoHash example_torrent \<mapsto> mt)"
    "dropped m2 = insert example_torrent (dropped (run []))"
    by auto
  then show ?thesis
    using h by (auto simp: run_Nil NewTorrentManager_def example_torrent_def)
qed

text \<open>
  Claim C2, as stated, gives the first attached subtitle the index \<open>-1\<close>. After a
  selection has stored the three subtitles of the example torrent, the first upload gets
  the index \<open>-4\<close>: the index is minus the length of the list plus one.
\<close>

theorem first_attached_index_counterexample:
  "snd (handleUploadSubtitle
          (run [OpAddMagnetInsert example_torrent True 0,
                OpSelectFile ''c0ffee'' 0 (\<lambda>i. Some []) 1])
          ''c0ffee'' (FormFile ''x.vtt'' []) 2) = jsonOK ''x.vtt'' (- 4)"
proof -
  let ?ops = "[OpAddMagnetInsert example_torrent True 0,
               OpSelectFile ''c0ffee'' 0 (\<lambda>i. Some []) 1]"
  obtain tfs where
    r: "run ?ops = \<lparr>torrents =
             [''c0ffee'' \<mapsto>
                example_session\<lparr>LastAccessed := 1,
                  Torrent := example_torrent\<lparr>TorrentFiles := tfs\<rparr>,
                  SelectedFile := 0,
                  Subtitles := rebuilt (classifyFiles example_torrent) 0 (\<lambda>i. Some [])\<rparr>],
           dropped = {}\<rparr>"
    using example_selected[of "\<lambda>i. Some []"] by (elim exE conjE)
  let ?mt = "example_session\<lparr>LastAccessed := 1,
                  Torrent := example_torrent\<lparr>TorrentFiles := tfs\<rparr>,
                  SelectedFile := 0,
                  Subtitles := rebuilt (classifyFiles example_torrent) 0 (\<lambda>i. Some [])\<rparr>"
  have st: "torrents (run ?ops) ''c0ffee'' = Some ?mt" by (simp add: r)
  have ne: "''c0ffee'' \<noteq> []" by simp
  have "length (map SubIndex (rebuilt (classifyFiles example_torrent) 0 (\<lambda>i. Some []))) = 3"
    unfolding example_rebuilt_all by simp
  then have n: "length (Subtitles ?mt) = 3" by simp
  have e: "strings_ToLower (filepath_Ext ''x.vtt'') \<noteq> ''.srt''"
    by (simp add: path_eval)
  show ?thesis
    unfolding handleUploadSubtitle_file[OF st ne] snd_conv n using e by simp
qed

text \<open>
  Claim C2, amended: in every reachable state the indices of a session's subtitle list are
  pairwise different (so no negative index collides with a non-negative one), and an
  upload or a download that attaches a subtitle appends one entry whose index is minus
  the number of entries the list had, minus one: consecutive attachments count down by
  one, starting at \<open>-1\<close> when the list is empty.
\<close>

theorem attached_subtitle_indices:
  "\<forall>tid mt. torrents (run ops) tid = Some mt \<longrightarrow>
     distinct (map SubIndex (Subtitles mt))
     \<and> (\<forall>filename bytes now. tid \<noteq> [] \<longrightarrow>
          (\<exists>name content.
             handleUploadSubtitle (run ops) tid (FormFile filename bytes) now =
               ((run ops)\<lparr>torrents := (torrents (run ops))
                   (tid \<mapsto> mt\<lparr>LastAccessed := now,
                              Subtitles := Subtitles mt @
                                [\<lparr>SubName = name,
                                  SubIndex = - (int (length (Subtitles mt)) + 1),
                                  Content = content\<rparr>]\<rparr>)\<rparr>,
                jsonOK name (- (int (length (Subtitles mt)) + 1)))))
     \<and> (\<forall>dl fileID content0 fileName0 now.
           tid \<noteq> [] \<and> fileID \<noteq> 0 \<and> dl fileID = Inr (content0, fileName0) \<longrightarrow>
          (\<exists>name content.
             handleDownloadSubtitle (run ops) dl tid (Some fileID) now =
               ((run ops)\<lparr>torrents := (torrents (run ops))
                   (tid \<mapsto> mt\<lparr>LastAccessed := now,
                              Subtitles := Subtitles mt @
                                [\<lparr>SubName = name,
                                  SubIndex = - (int (length (Subtitles mt)) + 1),
                                  Content = content\<rparr>]\<rparr>)\<rparr>,
                jsonOK name (- (int (length (Subtitles mt)) + 1)))))"
proof (intro allI impI conjI)
  fix tid mt
  assume st: "torrents (run ops) tid = Some mt"
  from manager_ok_stored[OF manager_ok_run st]
  show "distinct (map SubIndex (Subtitles mt))" by (simp add: session_ok_def)
next
  fix tid mt filename bytes now
  assume st: "torrents (run ops) tid = Some mt" and ne: "tid \<noteq> []"
  show "\<exists>name content.
             handleUploadSubtitle (run ops) tid (FormFile filename bytes) now =
               ((run ops)\<lparr>torrents := (torrents (run ops))
                   (tid \<mapsto> mt\<lparr>LastAccessed := now,
                              Subtitles := Subtitles mt @
                                [\<lparr>SubName = name,
                                  SubIndex = - (int (length (Subtitles mt)) + 1),
                                  Content = content\<rparr>]\<rparr>)\<rparr>,
                jsonOK name (- (int (length (Subtitles mt)) + 1)))"
    unfolding handleUploadSubtitle_file[OF st ne] by blast
next
  fix tid mt fileID content0 fileName0 now and dl :: "int \<Rightarrow> string + string \<times> string"
  assume st: "torrents (run ops) tid = Some mt"
    and h: "tid \<noteq> [] \<and> fileID \<noteq> 0 \<and> dl fileID = Inr (content0, fileName0)"
  from h have ne: "tid \<noteq> []" and f: "fileID \<noteq> 0" and d: "dl fileID = Inr (content0, fileName0)"
    by auto
  show "\<exists>name content.
             handleDownloadSubtitle (run ops) dl tid (Some fileID) now =
               ((run ops)\<lparr>torrents := (torrents (run ops))
                   (tid \<mapsto> mt\<lparr>LastAccessed := now,
                              Subtitles := Subtitles mt @
                                [\<lparr>SubName = name,
                                  SubIndex = - (int (length (Subtitles mt)) + 1),
                                  Content = content\<rparr>]\<rparr>)\<rparr>,
                jsonOK name (- (int (length (Subtitles mt)) + 1)))"
    unfolding handleDownloadSubtitle_file[where dl = dl and fileID = fileID, OF st ne f d]
    by blast
qed

text \<open>
  Witness for C2: an upload to the example session, whose subtitle list is empty, is
  answered with the index \<open>-1\<close>.
\<close>

theorem attached_subtitle_indices_witness:
  "torrents (run [OpAddMagnetInsert example_torrent True 0]) ''c0ffee'' = Some example_session
   \<and> ''c0ffee'' \<noteq> []
   \<and> distinct (map SubIndex (Subtitles example_session))
   \<and> (\<exists>name. snd (handleUploadSubtitle (run [OpAddMagnetInsert example_torrent True 0])
                      ''c0ffee'' (FormFile ''x.vtt'' []) 1) = jsonOK name (- 1))"
proof -
  have ne: "''c0ffee'' \<noteq> []" by simp
  note t = attached_subtitle_indices[of "[OpAddMagnetInsert example_torrent True 0]",
      rule_format, OF example_stored]
  from t have d: "distinct (map SubIndex (Subtitles example_session))" by (rule conjunct1)
  obtain name content where
    u: "handleUploadSubtitle (run [OpAddMagnetInsert example_torrent True 0]) ''c0ffee''
          (FormFile ''x.vtt'' []) 1 =
          ((run [OpAddMagnetInsert example_torrent True 0])
             \<lparr>torrents := (torrents (run [OpAddMagnetInsert example_torrent True 0]))
                (''c0ffee'' \<mapsto> example_session\<lparr>LastAccessed := 1,
                   Subtitles := Subtitles example_session @
                     [\<lparr>SubName = name,
                       SubIndex = - (int (length (Subtitles example_session)) + 1),
                       Content = content\<rparr>]\<rparr>)\<rparr>,
           jsonOK name (- (int (length (Subtitles example_session)) + 1)))"
    using t[THEN conjunct2, THEN conjunct1, rule_format, of "''x.vtt''" "[]" 1, OF ne]
    by (elim exE)
  have "snd (handleUploadSubtitle (run [OpAddMagnetInsert example_torrent True 0])
                      ''c0ffee'' (FormFile ''x.vtt'' []) 1) = jsonOK name (- 1)"
    unfolding u by (simp add: example_session_def)
  then have "\<exists>name. snd (handleUploadSubtitle (run [OpAddMagnetInsert example_torrent True 0])
                      ''c0ffee'' (FormFile ''x.vtt'' []) 1) = jsonOK name (- 1)"
    by (rule exI)
  with example_stored ne d show ?thesis by (intro conjI)
qed

text \<open>
  Claim C3: in every reachable state, selecting a valid file of a stored session succeeds,
  and the indices of the stored subtitle list are, in this order, the positions of the
  readable files flagged as subtitles whose base name without extension starts with the
  selected file's base name without extension or whose directory is the selected file's
  directory, in file-list order, followed by the positions of the other readable subtitle
  files, in file-list order. (A candidate whose read fails is in neither bucket, see C8.)
\<close>

theorem registry_SelectFile_matched_first:
  "\<forall>tid mt fileIndex rd now.
     torrents (run ops) tid = Some mt \<and> 0 \<le> fileIndex \<and> fileIndex < int (length (Files mt)) \<longrightarrow>
     (\<exists>m' mt'.
        SelectFile (run ops) tid fileIndex rd now = (m', Inr mt')
        \<and> torrents m' tid = Some mt'
        \<and> map SubIndex (Subtitles mt') =
            map int
              (filter (\<lambda>i. strings_HasPrefix (stripExt (filepath_Base (Path (Files mt ! i))))
                             (stripExt (filepath_Base (Path (Files mt ! nat fileIndex))))
                           \<or> filepath_Dir (Path (Files mt ! i))
                               = filepath_Dir (Path (Files mt ! nat fileIndex)))
                 (filter (\<lambda>i. IsSubtitle (Files mt ! i) \<and> rd i \<noteq> None)
                    [0..<length (Files mt)])
               @ filter (\<lambda>i. \<not> (strings_HasPrefix
                                    (stripExt (filepath_Base (Path (Files mt ! i))))
                                    (stripExt (filepath_Base (Path (Files mt ! nat fileIndex))))
                                  \<or> filepath_Dir (Path (Files mt ! i))
                                      = filepath_Dir (Path (Files mt ! nat fileIndex))))
                 (filter (\<lambda>i. IsSubtitle (Files mt ! i) \<and> rd i \<noteq> None)
                    [0..<length (Files mt)])))"
proof (intro allI impI)
  fix tid mt fileIndex rd now
  assume h: "torrents (run ops) tid = Some mt \<and> 0 \<le> fileIndex
             \<and> fileIndex < int (length (Files mt))"
  then have st: "torrents (run ops) tid = Some mt" and lo: "0 \<le> fileIndex"
    and hi: "fileIndex < int (length (Files mt))" by auto
  from SelectFile_reachable[OF st lo hi, of rd now] obtain tfs where
    eq: "SelectFile (run ops) tid fileIndex rd now =
             ((run ops)\<lparr>torrents := (torrents (run ops))
                  (tid \<mapsto> mt\<lparr>LastAccessed := now,
                             Torrent := (Torrent mt)\<lparr>TorrentFiles := tfs\<rparr>,
                             SelectedFile := fileIndex,
                             Subtitles := rebuilt (Files mt) (nat fileIndex) rd\<rparr>)\<rparr>,
              Inr (mt\<lparr>LastAccessed := now,
                       Torrent := (Torrent mt)\<lparr>TorrentFiles := tfs\<rparr>,
                       SelectedFile := fileIndex,
                       Subtitles := rebuilt (Files mt) (nat fileIndex) rd\<rparr>))"
    by blast
  show "\<exists>m' mt'.
        SelectFile (run ops) tid fileIndex rd now = (m', Inr mt')
        \<and> torrents m' tid = Some mt'
        \<and> map SubIndex (Subtitles mt') =
            map int
              (filter (\<lambda>i. strings_HasPrefix (stripExt (filepath_Base (Path (Files mt ! i))))
                             (stripExt (filepath_Base (Path (Files mt ! nat fileIndex))))
                           \<or> filepath_Dir (Path (Files mt ! i))
                               = filepath_Dir (Path (Files mt ! nat fileIndex)))
                 (filter (\<lambda>i. IsSubtitle (Files mt ! i) \<and> rd i \<noteq> None)
                    [0..<length (Files mt)])
               @ filter (\<lambda>i. \<not> (strings_HasPrefix
                                    (stripExt (filepath_Base (Path (Files mt ! i))))
                                    (stripExt (filepath_Base (Path (Files mt ! nat fileIndex))))
                                  \<or> filepath_Dir (Path (Files mt ! i))
                                      = filepath_Dir (Path (Files mt ! nat fileIndex))))
                 (filter (\<lambda>i. IsSubtitle (Files mt ! i) \<and> rd i \<noteq> None)
                    [0..<length (Files mt)]))"
  proof (intro exI conjI)
    show "SelectFile (run ops) tid fileIndex rd now =
             ((run ops)\<lparr>torrents := (torrents (run ops))
                  (tid \<mapsto> mt\<lparr>LastAccessed := now,
                             Torrent := (Torrent mt)\<lparr>TorrentFiles := tfs\<rparr>,
                             SelectedFile := fileIndex,
                             Subtitles := rebuilt (Files mt) (nat fileIndex) rd\<rparr>)\<rparr>,
              Inr (mt\<lparr>LastAccessed := now,
                       Torrent := (Torrent mt)\<lparr>TorrentFiles := tfs\<rparr>,
                       SelectedFile := fileIndex,
                       Subtitles := rebuilt (Files mt) (nat fileIndex) rd\<rparr>))"
      by (rule eq)
  next
    show "torrents ((run ops)\<lparr>torrents := (torrents (run ops))
                  (tid \<mapsto> mt\<lparr>LastAccessed := now,
                             Torrent := (Torrent mt)\<lparr>TorrentFiles := tfs\<rparr>,
                             SelectedFile := fileIndex,
                             Subtitles := rebuilt (Files mt) (nat fileIndex) rd\<rparr>)\<rparr>) tid
          = Some (mt\<lparr>LastAccessed := now,
                       Torrent := (Torrent mt)\<lparr>TorrentFiles := tfs\<rparr>,
                       SelectedFile := fileIndex,
                       Subtitles := rebuilt (Files mt) (nat fileIndex) rd\<rparr>)"
      by simp
  next
    have "Subtitles (mt\<lparr>LastAccessed := now,
                       Torrent := (Torrent mt)\<lparr>TorrentFiles := tfs\<rparr>,
                       SelectedFile := fileIndex,
                       Subtitles := rebuilt (Files mt) (nat fileIndex) rd\<rparr>)
            = rebuilt (Files mt) (nat fileIndex) rd" by simp
    then show "map SubIndex (Subtitles (mt\<lparr>LastAccessed := now,
                       Torrent := (Torrent mt)\<lparr>TorrentFiles := tfs\<rparr>,
                       SelectedFile := fileIndex,
                       Subtitles := rebuilt (Files mt) (nat fileIndex) rd\<rparr>)) =
            map int
              (filter (\<lambda>i. strings_HasPrefix (stripExt (filepath_Base (Path (Files mt ! i))))
                             (stripExt (filepath_Base (Path (Files mt ! nat fileIndex))))
                           \<or> filepath_Dir (Path (Files mt ! i))
                               = filepath_Dir (Path (Files mt ! nat fileIndex)))
                 (filter (\<lambda>i. IsSubtitle (Files mt ! i) \<and> rd i \<noteq> None)
                    [0..<length (Files mt)])
               @ filter (\<lambda>i. \<not> (strings_HasPrefix
                                    (stripExt (filepath_Base (Path (Files mt ! i))))
                                    (stripExt (filepath_Base (Path (Files mt ! nat fileIndex))))
                                  \<or> filepath_Dir (Path (Files mt ! i))
                                      = filepath_Dir (Path (Files mt ! nat fileIndex))))
                 (filter (\<lambda>i. IsSubtitle (Files mt ! i) \<and> rd i \<noteq> None)
                    [0..<length (Files mt)]))"
      by (simp only: rebuilt_SubIndex)
  qed
qed

text \<open>
  Witness for C3: with the video of the example torrent selected and every file readable,
  the subtitle beside the video comes first, then the two others in file-list order.
\<close>

theorem registry_SelectFile_matched_first_witness:
  "torrents (run [OpAddMagnetInsert example_torrent True 0]) ''c0ffee'' = Some example_session
   \<and> (0::int) < int (length (Files example_session))
   \<and> (\<exists>m' mt'.
        SelectFile (run [OpAddMagnetInsert example_torrent True 0]) ''c0ffee'' 0
            (\<lambda>i. Some []) 1 = (m', Inr mt')
        \<and> map Path (Files example_session) =
            [''Show/S01E01.mkv'', ''Other/random.srt'', ''Show/S01E01.en.srt'',
             ''Extras/signs.ass'']
        \<and> map SubIndex (Subtitles mt') = [2, 1, 3])"
proof -
  have lo: "(0::int) \<le> 0" by simp
  have hi: "(0::int) < int (length (Files example_session))" by (simp add: example_length)
  have fs: "Files example_session = classifyFiles example_torrent"
    by (simp add: example_session_def)
  obtain m' mt' where
    s: "SelectFile (run [OpAddMagnetInsert example_torrent True 0]) ''c0ffee'' 0
            (\<lambda>i. Some []) 1 = (m', Inr mt')"
    and ix: "map SubIndex (Subtitles mt') =
             map SubIndex (rebuilt (Files example_session) (nat 0) (\<lambda>i. Some []))"
    using registry_SelectFile_matched_first[of "[OpAddMagnetInsert example_torrent True 0]",
      rule_format, of "''c0ffee''" example_session 0 "\<lambda>i. Some []" 1,
      OF conjI[OF example_stored conjI[OF lo hi]]]
    unfolding rebuilt_SubIndex by (elim exE conjE)
  have p: "map Path (Files example_session) =
            [''Show/S01E01.mkv'', ''Other/random.srt'', ''Show/S01E01.en.srt'',
             ''Extras/signs.ass'']"
    by (simp add: fs example_files)
  have r: "map SubIndex (Subtitles mt') = [2, 1, 3]"
    unfolding ix fs using example_rebuilt_all by simp
  have "\<exists>m' mt'.
        SelectFile (run [OpAddMagnetInsert example_torrent True 0]) ''c0ffee'' 0
            (\<lambda>i. Some []) 1 = (m', Inr mt')
        \<and> map Path (Files example_session) =
            [''Show/S01E01.mkv'', ''Other/random.srt'', ''Show/S01E01.en.srt'',
             ''Extras/signs.ass'']
        \<and> map SubIndex (Subtitles mt') = [2, 1, 3]"
    by (intro exI[of _ m'] exI[of _ mt'] conjI s p r)
  with example_stored hi show ?thesis by (intro conjI)
qed

text \<open>
  Claim C5: in every reachable state, for a stored session with a selected file,
  \<open>GetFileReader\<close> returns a responsive reader on that file whose read-ahead is 16 MiB when
  the file's length is at most 500 MiB, 32 MiB when it is above 500 MiB and at most 2 GiB,
  and 64 MiB above 2 GiB; so the lengths 500 MiB and 2 GiB fall in the lower tier, and
  100 MiB, 1 GiB and 3 GiB get 16, 32 and 64 MiB.
\<close>

theorem GetFileReader_readahead_tiers:
  "\<forall>tid mt now.
     torrents (run ops) tid = Some mt \<and> 0 \<le> SelectedFile mt \<longrightarrow>
     (\<exists>m' reader file.
        GetFileReader (run ops) tid now = (m', Inr (reader, file))
        \<and> file = TorrentFiles (Torrent mt) ! nat (SelectedFile mt)
        \<and> Responsive reader
        \<and> Readahead reader =
            (if FileLength file \<le> 500 * 1024 * 1024 then 16 * 1024 * 1024
             else if FileLength file \<le> 2 * 1024 * 1024 * 1024 then 32 * 1024 * 1024
             else 64 * 1024 * 1024)
        \<and> (FileLength file = 500 * 1024 * 1024 \<longrightarrow> Readahead reader = 16 * 1024 * 1024)
        \<and> (FileLength file = 2 * 1024 * 1024 * 1024 \<longrightarrow> Readahead reader = 32 * 1024 * 1024)
        \<and> (FileLength file = 100 * 1024 * 1024 \<longrightarrow> Readahead reader = 16 * 1024 * 1024)
        \<and> (FileLength file = 1024 * 1024 * 1024 \<longrightarrow> Readahead reader = 32 * 1024 * 1024)
        \<and> (FileLength file = 3 * 1024 * 1024 * 1024 \<longrightarrow> Readahead reader = 64 * 1024 * 1024))"
proof (intro allI impI)
  fix tid mt now
  assume h: "torrents (run ops) tid = Some mt \<and> 0 \<le> SelectedFile mt"
  then have st: "torrents (run ops) tid = Some mt" and lo: "0 \<le> SelectedFile mt" by auto
  from manager_ok_stored[OF manager_ok_run st] lo
  have hi: "nat (SelectedFile mt) < length (TorrentFiles (Torrent mt))"
    by (auto simp: session_ok_def)
  show "\<exists>m' reader file.
        GetFileReader (run ops) tid now = (m', Inr (reader, file))
        \<and> file = TorrentFiles (Torrent mt) ! nat (SelectedFile mt)
        \<and> Responsive reader
        \<and> Readahead reader =
            (if FileLength file \<le> 500 * 1024 * 1024 then 16 * 1024 * 1024
             else if FileLength file \<le> 2 * 1024 * 1024 * 1024 then 32 * 1024 * 1024
             else 64 * 1024 * 1024)
        \<and> (FileLength file = 500 * 1024 * 1024 \<longrightarrow> Readahead reader = 16 * 1024 * 1024)
        \<and> (FileLength file = 2 * 1024 * 1024 * 1024 \<longrightarrow> Readahead reader = 32 * 1024 * 1024)
        \<and> (FileLength file = 100 * 1024 * 1024 \<longrightarrow> Readahead reader = 16 * 1024 * 1024)
        \<and> (FileLength file = 1024 * 1024 * 1024 \<longrightarrow> Readahead reader = 32 * 1024 * 1024)
        \<and> (FileLength file = 3 * 1024 * 1024 * 1024 \<longrightarrow> Readahead reader = 64 * 1024 * 1024)"
  proof -
    let ?file = "TorrentFiles (Torrent mt) ! nat (SelectedFile mt)"
    let ?reader = "\<lparr>Readahead =
                    (if FileLength ?file \<le> 500 * 1024 * 1024 then 16 * 1024 * 1024
                     else if FileLength ?file \<le> 2 * 1024 * 1024 * 1024 then 32 * 1024 * 1024
                     else 64 * 1024 * 1024),
                  Responsive = True\<rparr>"
    let ?m' = "(run ops)\<lparr>torrents := (torrents (run ops))(tid \<mapsto> mt\<lparr>LastAccessed := now\<rparr>)\<rparr>"
    have 1: "GetFileReader (run ops) tid now = (?m', Inr (?reader, ?file))"
      by (rule GetFileReader_success[OF st lo hi])
    have 2: "Responsive ?reader" by simp
    have 3: "Readahead ?reader =
            (if FileLength ?file \<le> 500 * 1024 * 1024 then 16 * 1024 * 1024
             else if FileLength ?file \<le> 2 * 1024 * 1024 * 1024 then 32 * 1024 * 1024
             else 64 * 1024 * 1024)" by simp
    have 4: "FileLength ?file = 500 * 1024 * 1024 \<longrightarrow> Readahead ?reader = 16 * 1024 * 1024"
      "FileLength ?file = 2 * 1024 * 1024 * 1024 \<longrightarrow> Readahead ?reader = 32 * 1024 * 1024"
      "FileLength ?file = 100 * 1024 * 1024 \<longrightarrow> Readahead ?reader = 16 * 1024 * 1024"
      "FileLength ?file = 1024 * 1024 * 1024 \<longrightarrow> Readahead ?reader = 32 * 1024 * 1024"
      "FileLength ?file = 3 * 1024 * 1024 * 1024 \<longrightarrow> Readahead ?reader = 64 * 1024 * 1024"
      by simp_all
    show ?thesis
      using 1 2 3 4 by (intro exI[of _ ?m'] exI[of _ ?reader] exI[of _ ?file] conjI) blast+
  qed
qed

text \<open>
  Witness for C5: after the video of the example torrent (one GiB) is selected, the reader
  has a read-ahead of 32 MiB.
\<close>

theorem GetFileReader_readahead_tiers_witness:
  "\<exists>mt. torrents (run [OpAddMagnetInsert example_torrent True 0,
                        OpSelectFile ''c0ffee'' 0 (\<lambda>i. None) 1]) ''c0ffee'' = Some mt
      \<and> 0 \<le> SelectedFile mt
      \<and> (\<exists>m' reader file.
            GetFileReader (run [OpAddMagnetInsert example_torrent True 0,
                                OpSelectFile ''c0ffee'' 0 (\<lambda>i. None) 1]) ''c0ffee'' 2
              = (m', Inr (reader, file))
            \<and> FileLength file = 1024 * 1024 * 1024
            \<and> Readahead reader = 32 * 1024 * 1024)"
proof -
  let ?ops = "[OpAddMagnetInsert example_torrent True 0, OpSelectFile ''c0ffee'' 0 (\<lambda>i. None) 1]"
  from example_selected[of "\<lambda>i. None"] obtain tfs where
    l: "length tfs = 4" and fl: "map FileLength tfs = [1024 * 1024 * 1024, 40, 40, 13]" and
    r: "run ?ops = \<lparr>torrents =
             [''c0ffee'' \<mapsto>
                example_session\<lparr>LastAccessed := 1,
                  Torrent := example_torrent\<lparr>TorrentFiles := tfs\<rparr>,
                  SelectedFile := 0,
                  Subtitles := rebuilt (classifyFiles example_torrent) 0 (\<lambda>i. None)\<rparr>],
           dropped = {}\<rparr>" by (elim exE conjE)
  let ?mt = "example_session\<lparr>LastAccessed := 1,
                  Torrent := example_torrent\<lparr>TorrentFiles := tfs\<rparr>,
                  SelectedFile := 0,
                  Subtitles := rebuilt (classifyFiles example_torrent) 0 (\<lambda>i. None)\<rparr>"
  have st: "torrents (run ?ops) ''c0ffee'' = Some ?mt" by (simp add: r)
  have sel: "0 \<le> SelectedFile ?mt" by simp
  have "FileLength (tfs ! 0) = map FileLength tfs ! 0" using l by simp
  then have f0: "FileLength (TorrentFiles (Torrent ?mt) ! nat (SelectedFile ?mt)) = 1024 * 1024 * 1024"
    by (simp add: fl)
  from GetFileReader_readahead_tiers[of ?ops, rule_format, of "''c0ffee''" ?mt 2, OF conjI[OF st sel]]
  obtain m' rdr tf where
    g: "GetFileReader (run ?ops) ''c0ffee'' 2 = (m', Inr (rdr, tf))"
    and fi: "tf = TorrentFiles (Torrent ?mt) ! nat (SelectedFile ?mt)"
    and ra: "FileLength tf = 1024 * 1024 * 1024 \<longrightarrow> Readahead rdr = 32 * 1024 * 1024"
    by (elim exE conjE)
  from fi f0 have fl1: "FileLength tf = 1024 * 1024 * 1024" by simp
  from ra fl1 have ra1: "Readahead rdr = 32 * 1024 * 1024" by (rule mp)
  have "\<exists>m' reader file.
            GetFileReader (run ?ops) ''c0ffee'' 2 = (m', Inr (reader, file))
            \<and> FileLength file = 1024 * 1024 * 1024
            \<and> Readahead reader = 32 * 1024 * 1024"
    by (intro exI[of _ m'] exI[of _ rdr] exI[of _ tf] conjI g fl1 ra1)
  with st sel show ?thesis by (intro exI[of _ ?mt] conjI)
qed

text \<open>
  Claim C6: for a stored session and a file index that is negative or not below the
  number of files, \<open>SelectFile\<close> returns the error \<open>FileIndexOutOfRange\<close> and changes nothing
  but the session's access time: the selected index, the subtitle list and the engine
  handle with its priorities are as before. That error is not \<open>TorrentNotFound\<close>, which
  \<open>SelectFile\<close> returns exactly when no session is stored under the identifier.
\<close>

theorem SelectFile_out_of_range:
  "(\<forall>tid mt fileIndex rd now.
      torrents m tid = Some mt \<and> (fileIndex < 0 \<or> fileIndex \<ge> int (length (Files mt))) \<longrightarrow>
      SelectFile m tid fileIndex rd now =
        (m\<lparr>torrents := (torrents m)(tid \<mapsto> mt\<lparr>LastAccessed := now\<rparr>)\<rparr>,
         Inl FileIndexOutOfRange)
      \<and> map_option SelectedFile (torrents (fst (SelectFile m tid fileIndex rd now)) tid)
          = Some (SelectedFile mt)
      \<and> map_option Subtitles (torrents (fst (SelectFile m tid fileIndex rd now)) tid)
          = Some (Subtitles mt)
      \<and> map_option Torrent (torrents (fst (SelectFile m tid fileIndex rd now)) tid)
          = Some (Torrent mt))
   \<and> FileIndexOutOfRange \<noteq> TorrentNotFound
   \<and> (\<forall>tid fileIndex rd now.
        (snd (SelectFile m tid fileIndex rd now) = Inl TorrentNotFound)
          = (torrents m tid = None))"
proof -
  have a: "SelectFile m tid fileIndex rd now =
        (m\<lparr>torrents := (torrents m)(tid \<mapsto> mt\<lparr>LastAccessed := now\<rparr>)\<rparr>,
         Inl FileIndexOutOfRange)"
    if "torrents m tid = Some mt" "fileIndex < 0 \<or> fileIndex \<ge> int (length (Files mt))"
    for tid mt fileIndex rd now
    using that by (auto simp: SelectFile_def GetTorrent_Some)
  have b: "(snd (SelectFile m tid fileIndex rd now) = Inl TorrentNotFound)
          = (torrents m tid = None)" for tid fileIndex rd now
  proof (cases "torrents m tid")
    case None
    then show ?thesis by (simp add: SelectFile_def GetTorrent_None)
  next
    case (Some mt)
    then show ?thesis
      by (auto simp: SelectFile_def GetTorrent_Some Let_def split: prod.splits option.splits)
  qed
  show ?thesis
    using b by (auto simp: a)
qed

text \<open>
  Witness for C6: selecting index 4 of the example session, which has four files, fails
  with \<open>FileIndexOutOfRange\<close> and leaves the selected index at \<open>-1\<close>.
\<close>

theorem SelectFile_out_of_range_witness:
  "torrents (run [OpAddMagnetInsert example_torrent True 0]) ''c0ffee'' = Some example_session
   \<and> int (length (Files example_session)) \<le> 4
   \<and> snd (SelectFile (run [OpAddMagnetInsert example_torrent True 0]) ''c0ffee'' 4
            (\<lambda>i. None) 1) = Inl FileIndexOutOfRange
   \<and> map_option SelectedFile
        (torrents (fst (SelectFile (run [OpAddMagnetInsert example_torrent True 0])
                          ''c0ffee'' 4 (\<lambda>i. None) 1)) ''c0ffee'') = Some (- 1)
   \<and> map_option Subtitles
        (torrents (fst (SelectFile (run [OpAddMagnetInsert example_torrent True 0])
                          ''c0ffee'' 4 (\<lambda>i. None) 1)) ''c0ffee'') = Some []"
proof -
  have hi: "int (length (Files example_session)) \<le> 4" by (simp add: example_length)
  have h: "(4::int) < 0 \<or> int (length (Files example_session)) \<le> 4" using hi by simp
  note t = SelectFile_out_of_range[of "run [OpAddMagnetInsert example_torrent True 0]",
      THEN conjunct1, rule_format, of "''c0ffee''" example_session 4 "\<lambda>i. None" 1,
      OF conjI[OF example_stored h]]
  from t have 1: "snd (SelectFile (run [OpAddMagnetInsert example_torrent True 0]) ''c0ffee'' 4
            (\<lambda>i. None) 1) = Inl FileIndexOutOfRange" by simp
  from t have 2: "map_option SelectedFile
        (torrents (fst (SelectFile (run [OpAddMagnetInsert example_torrent True 0])
                          ''c0ffee'' 4 (\<lambda>i. None) 1)) ''c0ffee'') = Some (- 1)"
    by (simp add: example_session_def)
  from t have 3: "map_option Subtitles
        (torrents (fst (SelectFile (run [OpAddMagnetInsert example_torrent True 0])
                          ''c0ffee'' 4 (\<lambda>i. None) 1)) ''c0ffee'') = Some []"
    by (simp add: example_session_def)
  show ?thesis by (intro conjI example_stored hi 1 2 3)
qed

text \<open>
  Claim C7: in every reachable state, for valid indices \<open>a\<close> and \<open>b\<close> of a stored session,
  selecting \<open>a\<close> and then \<open>b\<close> stores the same subtitle list as selecting \<open>b\<close> alone (with the
  same reads during the selection of \<open>b\<close>), also when a subtitle is uploaded between the
  two selections.
\<close>

theorem SelectFile_resets_subtitles:
  "\<forall>tid mt a b rdA rd t1 t2 t3 form.
     torrents (run ops) tid = Some mt
     \<and> 0 \<le> a \<and> a < int (length (Files mt)) \<and> 0 \<le> b \<and> b < int (length (Files mt)) \<longrightarrow>
     (\<exists>mA mtA mAB mtAB mB mtB mU mtU.
        SelectFile (run ops) tid a rdA t1 = (mA, Inr mtA)
        \<and> SelectFile mA tid b rd t2 = (mAB, Inr mtAB)
        \<and> SelectFile (run ops) tid b rd t2 = (mB, Inr mtB)
        \<and> torrents mAB tid = Some mtAB \<and> torrents mB tid = Some mtB
        \<and> Subtitles mtAB = Subtitles mtB
        \<and> SelectFile (fst (handleUploadSubtitle mA tid form t3)) tid b rd t2 = (mU, Inr mtU)
        \<and> torrents mU tid = Some mtU
        \<and> Subtitles mtU = Subtitles mtB)"
proof (intro allI impI)
  fix tid mt a b rdA rd t1 t2 t3 form
  assume h: "torrents (run ops) tid = Some mt
     \<and> 0 \<le> a \<and> a < int (length (Files mt)) \<and> 0 \<le> b \<and> b < int (length (Files mt))"
  then have st: "torrents (run ops) tid = Some mt"
    and a: "0 \<le> a" "a < int (length (Files mt))"
    and b: "0 \<le> b" "b < int (length (Files mt))" by auto
  from manager_ok_stored[OF manager_ok_run st]
  have len: "length (TorrentFiles (Torrent mt)) = length (Files mt)"
    by (simp add: session_ok_def)
  obtain mA mtA where sa: "SelectFile (run ops) tid a rdA t1 = (mA, Inr mtA)"
    using SelectFile_Subtitles_only_Files[OF st a len, of rdA t1] by blast
  from SelectFile_keeps[OF st len, of a rdA t1] sa obtain mt1 where
    st1: "torrents mA tid = Some mt1" and f1: "Files mt1 = Files mt"
    and l1: "length (TorrentFiles (Torrent mt1)) = length (Files mt1)"
    using len by auto
  from SelectFile_Subtitles_only_Files[OF st1 _ _ l1, of b rd t2] b f1
  obtain mAB mtAB where sab: "SelectFile mA tid b rd t2 = (mAB, Inr mtAB)"
    "torrents mAB tid = Some mtAB" "Subtitles mtAB = rebuilt (Files mt) (nat b) rd"
    by auto
  from SelectFile_Subtitles_only_Files[OF st b len, of rd t2]
  obtain mB mtB where sb: "SelectFile (run ops) tid b rd t2 = (mB, Inr mtB)"
    "torrents mB tid = Some mtB" "Subtitles mtB = rebuilt (Files mt) (nat b) rd"
    by auto
  from handleUploadSubtitle_keeps[OF st1, of form t3] obtain mt2 where
    st2: "torrents (fst (handleUploadSubtitle mA tid form t3)) tid = Some mt2"
    and f2: "Files mt2 = Files mt"
    and l2: "length (TorrentFiles (Torrent mt2)) = length (Files mt2)"
    using f1 l1 by auto
  from SelectFile_Subtitles_only_Files[OF st2 _ _ l2, of b rd t2] b f2
  obtain mU mtU where
    su: "SelectFile (fst (handleUploadSubtitle mA tid form t3)) tid b rd t2 = (mU, Inr mtU)"
    "torrents mU tid = Some mtU" "Subtitles mtU = rebuilt (Files mt) (nat b) rd"
    by auto
  show "\<exists>mA mtA mAB mtAB mB mtB mU mtU.
        SelectFile (run ops) tid a rdA t1 = (mA, Inr mtA)
        \<and> SelectFile mA tid b rd t2 = (mAB, Inr mtAB)
        \<and> SelectFile (run ops) tid b rd t2 = (mB, Inr mtB)
        \<and> torrents mAB tid = Some mtAB \<and> torrents mB tid = Some mtB
        \<and> Subtitles mtAB = Subtitles mtB
        \<and> SelectFile (fst (handleUploadSubtitle mA tid form t3)) tid b rd t2 = (mU, Inr mtU)
        \<and> torrents mU tid = Some mtU
        \<and> Subtitles mtU = Subtitles mtB"
    using sa sab sb su by (intro exI[of _ mA] exI[of _ mtA] exI[of _ mAB] exI[of _ mtAB]
        exI[of _ mB] exI[of _ mtB] exI[of _ mU] exI[of _ mtU]) simp
qed

text \<open>
  Witness for C7: on the example torrent, selecting file 0 and then file 2 gives the
  subtitle list of selecting file 2 alone.
\<close>

theorem SelectFile_resets_subtitles_witness:
  "torrents (run [OpAddMagnetInsert example_torrent True 0]) ''c0ffee'' = Some example_session
   \<and> (2::int) < int (length (Files example_session))
   \<and> (\<exists>mA mtA mAB mtAB mB mtB.
        SelectFile (run [OpAddMagnetInsert example_torrent True 0]) ''c0ffee'' 0
            (\<lambda>i. Some []) 1 = (mA, Inr mtA)
        \<and> SelectFile mA ''c0ffee'' 2 (\<lambda>i. Some []) 2 = (mAB, Inr mtAB)
        \<and> SelectFile (run [OpAddMagnetInsert example_torrent True 0]) ''c0ffee'' 2
            (\<lambda>i. Some []) 2 = (mB, Inr mtB)
        \<and> Subtitles mtAB = Subtitles mtB)"
proof -
  have a: "(0::int) \<le> 0" "(0::int) < int (length (Files example_session))"
    by (simp_all add: example_length)
  have b: "(0::int) \<le> 2" "(2::int) < int (length (Files example_session))"
    by (simp_all add: example_length)
  obtain mA mtA mAB mtAB mB mtB where
    1: "SelectFile (run [OpAddMagnetInsert example_torrent True 0]) ''c0ffee'' 0
            (\<lambda>i. Some []) 1 = (mA, Inr mtA)"
    and 2: "SelectFile mA ''c0ffee'' 2 (\<lambda>i. Some []) 2 = (mAB, Inr mtAB)"
    and 3: "SelectFile (run [OpAddMagnetInsert example_torrent True 0]) ''c0ffee'' 2
            (\<lambda>i. Some []) 2 = (mB, Inr mtB)"
    and 4: "Subtitles mtAB = Subtitles mtB"
    using SelectFile_resets_subtitles[of "[OpAddMagnetInsert example_torrent True 0]",
      rule_format, of "''c0ffee''" example_session 0 2 "\<lambda>i. Some []" 1 "\<lambda>i. Some []" 2
        FormTooLarge 3,
      OF conjI[OF example_stored conjI[OF a(1) conjI[OF a(2) conjI[OF b(1) b(2)]]]]]
    by (elim exE conjE)
  have "\<exists>mA mtA mAB mtAB mB mtB.
        SelectFile (run [OpAddMagnetInsert example_torrent True 0]) ''c0ffee'' 0
            (\<lambda>i. Some []) 1 = (mA, Inr mtA)
        \<and> SelectFile mA ''c0ffee'' 2 (\<lambda>i. Some []) 2 = (mAB, Inr mtAB)
        \<and> SelectFile (run [OpAddMagnetInsert example_torrent True 0]) ''c0ffee'' 2
            (\<lambda>i. Some []) 2 = (mB, Inr mtB)
        \<and> Subtitles mtAB = Subtitles mtB"
    by (intro exI[of _ mA] exI[of _ mtA] exI[of _ mAB] exI[of _ mtAB] exI[of _ mB]
          exI[of _ mtB] conjI 1 2 3 4)
  with example_stored b(2) show ?thesis by (intro conjI)
qed

text \<open>
  Claim C8: in every reachable state, selecting a valid file of a stored session returns
  the session whatever the reads of the subtitle files return (each read is taken to end,
  with bytes or with an error); the selected index is recorded, and a file's position is
  among the indices of the stored subtitles exactly when the file is flagged as a subtitle
  and its read succeeded: a failed read drops that one candidate and no other.
\<close>

theorem registry_SelectFile_skips_unreadable:
  "\<forall>tid mt fileIndex rd now.
     torrents (run ops) tid = Some mt \<and> 0 \<le> fileIndex \<and> fileIndex < int (length (Files mt)) \<longrightarrow>
     (\<exists>m' mt'.
        SelectFile (run ops) tid fileIndex rd now = (m', Inr mt')
        \<and> torrents m' tid = Some mt'
        \<and> SelectedFile mt' = fileIndex
        \<and> (\<forall>i. i < length (Files mt) \<longrightarrow>
              (int i \<in> SubIndex ` set (Subtitles mt'))
                = (IsSubtitle (Files mt ! i) \<and> rd i \<noteq> None)))"
proof (intro allI impI)
  fix tid mt fileIndex rd now
  assume h: "torrents (run ops) tid = Some mt \<and> 0 \<le> fileIndex
             \<and> fileIndex < int (length (Files mt))"
  then have st: "torrents (run ops) tid = Some mt" and lo: "0 \<le> fileIndex"
    and hi: "fileIndex < int (length (Files mt))" by auto
  from SelectFile_reachable[OF st lo hi, of rd now] obtain tfs where
    eq: "SelectFile (run ops) tid fileIndex rd now =
             ((run ops)\<lparr>torrents := (torrents (run ops))
                  (tid \<mapsto> mt\<lparr>LastAccessed := now,
                             Torrent := (Torrent mt)\<lparr>TorrentFiles := tfs\<rparr>,
                             SelectedFile := fileIndex,
                             Subtitles := rebuilt (Files mt) (nat fileIndex) rd\<rparr>)\<rparr>,
              Inr (mt\<lparr>LastAccessed := now,
                       Torrent := (Torrent mt)\<lparr>TorrentFiles := tfs\<rparr>,
                       SelectedFile := fileIndex,
                       Subtitles := rebuilt (Files mt) (nat fileIndex) rd\<rparr>))"
    by blast
  show "\<exists>m' mt'.
        SelectFile (run ops) tid fileIndex rd now = (m', Inr mt')
        \<and> torrents m' tid = Some mt'
        \<and> SelectedFile mt' = fileIndex
        \<and> (\<forall>i. i < length (Files mt) \<longrightarrow>
              (int i \<in> SubIndex ` set (Subtitles mt'))
                = (IsSubtitle (Files mt ! i) \<and> rd i \<noteq> None))"
  proof (intro exI conjI)
    show "SelectFile (run ops) tid fileIndex rd now =
             ((run ops)\<lparr>torrents := (torrents (run ops))
                  (tid \<mapsto> mt\<lparr>LastAccessed := now,
                             Torrent := (Torrent mt)\<lparr>TorrentFiles := tfs\<rparr>,
                             SelectedFile := fileIndex,
                             Subtitles := rebuilt (Files mt) (nat fileIndex) rd\<rparr>)\<rparr>,
              Inr (mt\<lparr>LastAccessed := now,
                       Torrent := (Torrent mt)\<lparr>TorrentFiles := tfs\<rparr>,
                       SelectedFile := fileIndex,
                       Subtitles := rebuilt (Files mt) (nat fileIndex) rd\<rparr>))"
      by (rule eq)
  next
    show "torrents ((run ops)\<lparr>torrents := (torrents (run ops))
                  (tid \<mapsto> mt\<lparr>LastAccessed := now,
                             Torrent := (Torrent mt)\<lparr>TorrentFiles := tfs\<rparr>,
                             SelectedFile := fileIndex,
                             Subtitles := rebuilt (Files mt) (nat fileIndex) rd\<rparr>)\<rparr>) tid
          = Some (mt\<lparr>LastAccessed := now,
                       Torrent := (Torrent mt)\<lparr>TorrentFiles := tfs\<rparr>,
                       SelectedFile := fileIndex,
                       Subtitles := rebuilt (Files mt) (nat fileIndex) rd\<rparr>)"
      by simp
  next
    show "SelectedFile (mt\<lparr>LastAccessed := now,
                       Torrent := (Torrent mt)\<lparr>TorrentFiles := tfs\<rparr>,
                       SelectedFile := fileIndex,
                       Subtitles := rebuilt (Files mt) (nat fileIndex) rd\<rparr>) = fileIndex"
      by simp
  next
    have "Subtitles (mt\<lparr>LastAccessed := now,
                       Torrent := (Torrent mt)\<lparr>TorrentFiles := tfs\<rparr>,
                       SelectedFile := fileIndex,
                       Subtitles := rebuilt (Files mt) (nat fileIndex) rd\<rparr>)
            = rebuilt (Files mt) (nat fileIndex) rd" by simp
    then show "\<forall>i. i < length (Files mt) \<longrightarrow>
              (int i \<in> SubIndex ` set (Subtitles (mt\<lparr>LastAccessed := now,
                       Torrent := (Torrent mt)\<lparr>TorrentFiles := tfs\<rparr>,
                       SelectedFile := fileIndex,
                       Subtitles := rebuilt (Files mt) (nat fileIndex) rd\<rparr>)))
                = (IsSubtitle (Files mt ! i) \<and> rd i \<noteq> None)"
      by (simp only: rebuilt_SubIndex_set) auto
  qed
qed

text \<open>
  Witness for C8: with the read of the example torrent's file 1 failing, the selection
  succeeds, records index 0, and stores the subtitles of the files 2 and 3 but not 1.
\<close>

theorem registry_SelectFile_skips_unreadable_witness:
  "torrents (run [OpAddMagnetInsert example_torrent True 0]) ''c0ffee'' = Some example_session
   \<and> (0::int) < int (length (Files example_session))
   \<and> (\<exists>m' mt'.
        SelectFile (run [OpAddMagnetInsert example_torrent True 0]) ''c0ffee'' 0
            (\<lambda>i. if i = 1 then None else Some []) 1 = (m', Inr mt')
        \<and> SelectedFile mt' = 0
        \<and> 1 \<notin> SubIndex ` set (Subtitles mt')
        \<and> 2 \<in> SubIndex ` set (Subtitles mt')
        \<and> 3 \<in> SubIndex ` set (Subtitles mt'))"
proof -
  have lo: "(0::int) \<le> 0" by simp
  have hi: "(0::int) < int (length (Files example_session))" by (simp add: example_length)
  have fs: "Files example_session = classifyFiles example_torrent"
    by (simp add: example_session_def)
  obtain m' mt' where
    s: "SelectFile (run [OpAddMagnetInsert example_torrent True 0]) ''c0ffee'' 0
            (\<lambda>i. if i = 1 then None else Some []) 1 = (m', Inr mt')"
    and sel: "SelectedFile mt' = 0"
    and ix: "\<forall>i. i < length (Files example_session) \<longrightarrow>
              (int i \<in> SubIndex ` set (Subtitles mt'))
                = (IsSubtitle (Files example_session ! i)
                   \<and> (if i = 1 then None else Some []) \<noteq> (None :: string option))"
    using registry_SelectFile_skips_unreadable[of "[OpAddMagnetInsert example_torrent True 0]",
      rule_format, of "''c0ffee''" example_session 0 "\<lambda>i. if i = 1 then None else Some []" 1,
      OF conjI[OF example_stored conjI[OF lo hi]]]
    by (elim exE conjE)
  from ix[rule_format, of 1] have a: "1 \<notin> SubIndex ` set (Subtitles mt')"
    by (simp add: example_length)
  from ix[rule_format, of 2] have b: "2 \<in> SubIndex ` set (Subtitles mt')"
    by (simp add: example_length) (simp add: fs example_files)
  from ix[rule_format, of 3] have c: "3 \<in> SubIndex ` set (Subtitles mt')"
    by (simp add: example_length) (simp add: fs example_files)
  have "\<exists>m' mt'.
        SelectFile (run [OpAddMagnetInsert example_torrent True 0]) ''c0ffee'' 0
            (\<lambda>i. if i = 1 then None else Some []) 1 = (m', Inr mt')
        \<and> SelectedFile mt' = 0
        \<and> 1 \<notin> SubIndex ` set (Subtitles mt')
        \<and> 2 \<in> SubIndex ` set (Subtitles mt')
        \<and> 3 \<in> SubIndex ` set (Subtitles mt')"
    by (intro exI[of _ m'] exI[of _ mt'] conjI s sel a b c)
  with example_stored hi show ?thesis by (intro conjI)
qed

text \<open>
  Claim C9, as stated, says that every stored subtitle holds WebVTT. The scan converts
  only files whose extension is \<open>.srt\<close>: the content of the example torrent's \<open>.ass\<close> file
  is stored as read, and does not begin with the WebVTT header.
\<close>

theorem stored_ass_content_counterexample:
  "map_option (\<lambda>mt. map Content (Subtitles mt))
     (torrents (run [OpAddMagnetInsert example_torrent True 0,
                     OpSelectFile ''c0ffee'' 0
                       (\<lambda>i. if i = 3 then Some ''[Script Info]'' else None) 1]) ''c0ffee'')
     = Some [''[Script Info]'']
   \<and> \<not> strings_HasPrefix ''[Script Info]'' ''WEBVTT''"
proof -
  let ?rd = "\<lambda>i::nat. if i = 3 then Some ''[Script Info]'' else None"
  let ?ops = "[OpAddMagnetInsert example_torrent True 0, OpSelectFile ''c0ffee'' 0 ?rd 1]"
  obtain tfs where
    r: "run ?ops = \<lparr>torrents =
             [''c0ffee'' \<mapsto>
                example_session\<lparr>LastAccessed := 1,
                  Torrent := example_torrent\<lparr>TorrentFiles := tfs\<rparr>,
                  SelectedFile := 0,
                  Subtitles := rebuilt (classifyFiles example_torrent) 0 ?rd\<rparr>],
           dropped = {}\<rparr>"
    using example_selected[of ?rd] by (elim exE conjE)
  have 1: "map_option (\<lambda>mt. map Content (Subtitles mt)) (torrents (run ?ops) ''c0ffee'')
             = Some [''[Script Info]'']"
    unfolding r by (simp add: example_rebuilt_ass)
  have 2: "\<not> strings_HasPrefix ''[Script Info]'' ''WEBVTT''"
    by (simp add: strings_HasPrefix_def)
  show ?thesis by (intro conjI 1 2)
qed

text \<open>
  Claim C9, amended: the converter's output always begins with the WebVTT header. An
  entry that a selection stores holds the converter's output on the bytes read when the
  lower-cased extension of the file's path is \<open>.srt\<close>, and the bytes as read otherwise; an
  uploaded subtitle (cut at the upload limit) and a downloaded one are stored by the same
  rule on the name of the file.
\<close>

theorem stored_content_conversion:
  "(\<forall>raw. strings_HasPrefix (ConvertSRTtoVTT raw) ''WEBVTT\<newline>\<newline>'')
   \<and> (\<forall>tid mt fileIndex rd now.
        torrents (run ops) tid = Some mt \<and> 0 \<le> fileIndex
        \<and> fileIndex < int (length (Files mt)) \<longrightarrow>
        (\<exists>m' mt'.
           SelectFile (run ops) tid fileIndex rd now = (m', Inr mt')
           \<and> torrents m' tid = Some mt'
           \<and> list_all
               (\<lambda>s. \<exists>i raw. i < length (Files mt) \<and> rd i = Some raw \<and> SubIndex s = int i
                       \<and> Content s =
                           (if strings_ToLower (filepath_Ext (Path (Files mt ! i))) = ''.srt''
                            then ConvertSRTtoVTT raw else raw))
               (Subtitles mt')))
   \<and> (\<forall>tid mt filename bytes now.
        torrents (run ops) tid = Some mt \<and> tid \<noteq> [] \<longrightarrow>
        (\<exists>m' mt' name idx.
           handleUploadSubtitle (run ops) tid (FormFile filename bytes) now
             = (m', jsonOK name idx)
           \<and> torrents m' tid = Some mt'
           \<and> Subtitles mt' = Subtitles mt @
               [\<lparr>SubName = name, SubIndex = idx,
                 Content = (if strings_ToLower (filepath_Ext filename) = ''.srt''
                            then ConvertSRTtoVTT (take maxUploadSize bytes)
                            else take maxUploadSize bytes)\<rparr>]))
   \<and> (\<forall>tid mt dl fileID content0 fileName0 now.
        torrents (run ops) tid = Some mt \<and> tid \<noteq> [] \<and> fileID \<noteq> 0
        \<and> dl fileID = Inr (content0, fileName0) \<longrightarrow>
        (\<exists>m' mt' name idx.
           handleDownloadSubtitle (run ops) dl tid (Some fileID) now = (m', jsonOK name idx)
           \<and> torrents m' tid = Some mt'
           \<and> Subtitles mt' = Subtitles mt @
               [\<lparr>SubName = name, SubIndex = idx,
                 Content = (if strings_ToLower (filepath_Ext fileName0) = ''.srt''
                            then ConvertSRTtoVTT content0 else content0)\<rparr>]))"
proof (intro conjI allI impI)
  fix raw
  show "strings_HasPrefix (ConvertSRTtoVTT raw) ''WEBVTT\<newline>\<newline>''"
    by (rule ConvertSRTtoVTT_header)
next
  fix tid mt fileIndex rd now
  assume h: "torrents (run ops) tid = Some mt \<and> 0 \<le> fileIndex
             \<and> fileIndex < int (length (Files mt))"
  then have st: "torrents (run ops) tid = Some mt" and lo: "0 \<le> fileIndex"
    and hi: "fileIndex < int (length (Files mt))" by auto
  from manager_ok_stored[OF manager_ok_run st]
  have len: "length (TorrentFiles (Torrent mt)) = length (Files mt)"
    by (simp add: session_ok_def)
  from SelectFile_Subtitles_only_Files[OF st lo hi len, of rd now]
  obtain m' mt' where s: "SelectFile (run ops) tid fileIndex rd now = (m', Inr mt')"
    and t: "torrents m' tid = Some mt'"
    and su: "Subtitles mt' = rebuilt (Files mt) (nat fileIndex) rd"
    by (elim exE conjE)
  have "list_all
               (\<lambda>s. \<exists>i raw. i < length (Files mt) \<and> rd i = Some raw \<and> SubIndex s = int i
                       \<and> Content s =
                           (if strings_ToLower (filepath_Ext (Path (Files mt ! i))) = ''.srt''
                            then ConvertSRTtoVTT raw else raw))
               (Subtitles mt')"
    unfolding su list_all_iff
  proof
    fix x
    assume "x \<in> set (rebuilt (Files mt) (nat fileIndex) rd)"
    from rebuilt_entry[OF this]
    show "\<exists>i raw. i < length (Files mt) \<and> rd i = Some raw \<and> SubIndex x = int i
                       \<and> Content x =
                           (if strings_ToLower (filepath_Ext (Path (Files mt ! i))) = ''.srt''
                            then ConvertSRTtoVTT raw else raw)"
      by blast
  qed
  with s t show "\<exists>m' mt'.
           SelectFile (run ops) tid fileIndex rd now = (m', Inr mt')
           \<and> torrents m' tid = Some mt'
           \<and> list_all
               (\<lambda>s. \<exists>i raw. i < length (Files mt) \<and> rd i = Some raw \<and> SubIndex s = int i
                       \<and> Content s =
                           (if strings_ToLower (filepath_Ext (Path (Files mt ! i))) = ''.srt''
                            then ConvertSRTtoVTT raw else raw))
               (Subtitles mt')"
    by (intro exI[of _ m'] exI[of _ mt'] conjI)
next
  fix tid mt filename bytes now
  assume h: "torrents (run ops) tid = Some mt \<and> tid \<noteq> []"
  then have st: "torrents (run ops) tid = Some mt" and ne: "tid \<noteq> []" by auto
  show "\<exists>m' mt' name idx.
           handleUploadSubtitle (run ops) tid (FormFile filename bytes) now
             = (m', jsonOK name idx)
           \<and> torrents m' tid = Some mt'
           \<and> Subtitles mt' = Subtitles mt @
               [\<lparr>SubName = name, SubIndex = idx,
                 Content = (if strings_ToLower (filepath_Ext filename) = ''.srt''
                            then ConvertSRTtoVTT (take maxUploadSize bytes)
                            else take maxUploadSize bytes)\<rparr>]"
    unfolding handleUploadSubtitle_file[OF st ne]
    by (intro exI conjI) (rule refl, simp, simp)
next
  fix tid mt fileID content0 fileName0 now and dl :: "int \<Rightarrow> string + string \<times> string"
  assume h: "torrents (run ops) tid = Some mt \<and> tid \<noteq> [] \<and> fileID \<noteq> 0
        \<and> dl fileID = Inr (content0, fileName0)"
  then have st: "torrents (run ops) tid = Some mt" and ne: "tid \<noteq> []"
    and f: "fileID \<noteq> 0" and d: "dl fileID = Inr (content0, fileName0)" by auto
  show "\<exists>m' mt' name idx.
           handleDownloadSubtitle (run ops) dl tid (Some fileID) now = (m', jsonOK name idx)
           \<and> torrents m' tid = Some mt'
           \<and> Subtitles mt' = Subtitles mt @
               [\<lparr>SubName = name, SubIndex = idx,
                 Content = (if strings_ToLower (filepath_Ext fileName0) = ''.srt''
                            then ConvertSRTtoVTT content0 else content0)\<rparr>]"
    unfolding handleDownloadSubtitle_file[where dl = dl and fileID = fileID, OF st ne f d]
    by (intro exI conjI) (rule refl, simp, simp)
qed

text \<open>
  Witness for C9: the \<open>.srt\<close> file beside the example video is stored converted.
\<close>

theorem stored_content_conversion_witness:
  "torrents (run [OpAddMagnetInsert example_torrent True 0]) ''c0ffee'' = Some example_session
   \<and> (0::int) < int (length (Files example_session))
   \<and> (\<exists>m' mt'.
        SelectFile (run [OpAddMagnetInsert example_torrent True 0]) ''c0ffee'' 0
          (\<lambda>i. if i = 2 then Some ''1\<newline>a\<newline>'' else None) 1 = (m', Inr mt')
        \<and> map Content (Subtitles mt') = [''WEBVTT\<newline>\<newline>a\<newline>''])"
proof -
  let ?rd = "\<lambda>i::nat. if i = 2 then Some ''1\<newline>a\<newline>'' else None"
  have lo: "(0::int) \<le> 0" by simp
  have hi: "(0::int) < int (length (Files example_session))" by (simp add: example_length)
  have fs: "Files example_session = classifyFiles example_torrent"
    by (simp add: example_session_def)
  have len: "length (TorrentFiles (Torrent example_session)) = length (Files example_session)"
    by (simp add: example_session_def length_classifyFiles)
  obtain m' mt' where
    s: "SelectFile (run [OpAddMagnetInsert example_torrent True 0]) ''c0ffee'' 0 ?rd 1
          = (m', Inr mt')"
    using stored_content_conversion[of "[OpAddMagnetInsert example_torrent True 0]",
      THEN conjunct2, THEN conjunct1, rule_format, of "''c0ffee''" example_session 0 ?rd 1,
      OF conjI[OF example_stored conjI[OF lo hi]]]
    by (elim exE conjE)
  obtain m2 mt2 where
    s2: "SelectFile (run [OpAddMagnetInsert example_torrent True 0]) ''c0ffee'' 0 ?rd 1
          = (m2, Inr mt2)"
    and su: "Subtitles mt2 = rebuilt (Files example_session) (nat 0) ?rd"
    using SelectFile_Subtitles_only_Files[OF example_stored lo hi len, of ?rd 1]
    by (elim exE conjE)
  from s s2 have "mt' = mt2" by simp
  with su have "map Content (Subtitles mt') = [''WEBVTT\<newline>\<newline>a\<newline>'']"
    by (simp add: fs example_rebuilt_srt)
  with s have "\<exists>m' mt'.
        SelectFile (run [OpAddMagnetInsert example_torrent True 0]) ''c0ffee'' 0 ?rd 1
          = (m', Inr mt')
        \<and> map Content (Subtitles mt') = [''WEBVTT\<newline>\<newline>a\<newline>'']"
    by (intro exI[of _ m'] exI[of _ mt'] conjI)
  with example_stored hi show ?thesis by (intro conjI)
qed

text \<open>
  Claim C10: in every reachable state the selected index of a stored session is \<open>-1\<close> or
  a position of its file list; when it is not negative it is also a position of the
  engine's file list, so \<open>GetFileReader\<close> never indexes out of range; and a session that the
  insert step creates has the selected index \<open>-1\<close>.
\<close>

theorem selected_index_in_bounds:
  "(\<forall>tid mt. torrents (run ops) tid = Some mt \<longrightarrow>
      (SelectedFile mt = - 1
       \<or> (0 \<le> SelectedFile mt \<and> SelectedFile mt < int (length (Files mt))))
      \<and> (0 \<le> SelectedFile mt \<longrightarrow>
           nat (SelectedFile mt) < length (TorrentFiles (Torrent mt))))
   \<and> (\<forall>tid now. snd (GetFileReader (run ops) tid now) \<noteq> Inl PanicIndexOutOfRange)
   \<and> (\<forall>t now m' mt. torrents (run ops) (InfoHash t) = None
          \<and> AddMagnet_insert (run ops) t True now = (m', Inr mt) \<longrightarrow> SelectedFile mt = - 1)"
proof -
  have ok: "manager_ok (run ops)" by (rule manager_ok_run)
  have a: "(SelectedFile mt = - 1
       \<or> (0 \<le> SelectedFile mt \<and> SelectedFile mt < int (length (Files mt))))
      \<and> (0 \<le> SelectedFile mt \<longrightarrow>
           nat (SelectedFile mt) < length (TorrentFiles (Torrent mt)))"
    if "torrents (run ops) tid = Some mt" for tid mt
    using manager_ok_stored[OF ok that] by (auto simp: session_ok_def)
  have c: "SelectedFile mt = - 1"
    if "torrents (run ops) (InfoHash t) = None"
       "AddMagnet_insert (run ops) t True now = (m', Inr mt)" for t now m' mt
    using that by (auto simp: AddMagnet_insert_new)
  show ?thesis
    using a c GetFileReader_no_panic[OF ok] by (intro conjI allI impI) (blast+)
qed

text \<open>
  Witness for C10: after the example torrent is added and its first file selected, the
  stored session has the selected index 0, inside its four files and the engine's.
\<close>

theorem selected_index_in_bounds_witness:
  "\<exists>mt. torrents (run [OpAddMagnetInsert example_torrent True 0,
                        OpSelectFile ''c0ffee'' 0 (\<lambda>i. None) 1]) ''c0ffee'' = Some mt
      \<and> SelectedFile mt = 0 \<and> length (Files mt) = 4
      \<and> nat (SelectedFile mt) < length (TorrentFiles (Torrent mt))"
proof -
  let ?ops = "[OpAddMagnetInsert example_torrent True 0, OpSelectFile ''c0ffee'' 0 (\<lambda>i. None) 1]"
  from example_selected[of "\<lambda>i. None"] obtain tfs where
    r: "run ?ops = \<lparr>torrents =
             [''c0ffee'' \<mapsto>
                example_session\<lparr>LastAccessed := 1,
                  Torrent := example_torrent\<lparr>TorrentFiles := tfs\<rparr>,
                  SelectedFile := 0,
                  Subtitles := rebuilt (classifyFiles example_torrent) 0 (\<lambda>i. None)\<rparr>],
           dropped = {}\<rparr>" by (elim exE conjE)
  let ?mt = "example_session\<lparr>LastAccessed := 1,
                  Torrent := example_torrent\<lparr>TorrentFiles := tfs\<rparr>,
                  SelectedFile := 0,
                  Subtitles := rebuilt (classifyFiles example_torrent) 0 (\<lambda>i. None)\<rparr>"
  have st: "torrents (run ?ops) ''c0ffee'' = Some ?mt" by (simp add: r)
  have sel: "SelectedFile ?mt = 0" by simp
  have len: "length (Files ?mt) = 4" using example_length by simp
  from selected_index_in_bounds[of ?ops, THEN conjunct1, rule_format, OF st] sel
  have "nat (SelectedFile ?mt) < length (TorrentFiles (Torrent ?mt))" by simp
  with st sel len show ?thesis by (intro exI[of _ ?mt] conjI)
qed

end
